theory Spec2Isabelle
  imports Complex_Main "HOL-Library.Word" "HOL-Library.Signed_Division" "HOL-Library.Monad_Syntax"
    "HOL-Library.Log_Nat"
begin

unbundle bit_operations_syntax

section \<open>monsterwm-xcb: the windowing state core\<close>

text \<open>
  A shallow embedding of \<^verbatim>\<open>monsterwm.c\<close>. The global variables of the program are the
  fields of the record \<open>wm\<close>; a function of the source that changes them takes a \<open>wm\<close> and
  returns the new one. Clients are heap cells: a pointer \<^verbatim>\<open>client *\<close> is a \<open>ref option\<close>
  with \<open>None\<close> for \<^verbatim>\<open>NULL\<close>, and the heap maps every allocated address to its cell.

  A result of type \<open>'a option\<close> is \<open>None\<close> where the C program has no defined result:
  it dereferences \<^verbatim>\<open>NULL\<close> or a freed cell, indexes an array out of bounds, divides by
  zero, or walks a cyclic list forever.

  A C \<^verbatim>\<open>int\<close> is modelled as an \<open>int\<close>: the values are pixel sizes, indices and client
  counts, and signed overflow has no defined result in C. The operators \<^verbatim>\<open>/\<close> and \<^verbatim>\<open>%\<close>
  of C truncate towards zero; they are \<open>sdiv\<close> and \<open>smod\<close>.
\<close>

subsection \<open>Data model\<close>

type_synonym ref = nat
type_synonym window = "32 word"
type_synonym atom = "32 word"

text \<open>\<^verbatim>\<open>struct client\<close>; the field \<^verbatim>\<open>next\<close> is \<open>nxt\<close>.\<close>

record client =
  nxt :: "ref option"
  monitor :: int
  isurgent :: bool
  istransient :: bool
  isfullscrn :: bool
  isfloating :: bool
  win :: window

type_synonym heap = "ref \<Rightarrow> client option"

record desktop =
  master_size :: int
  mode :: int
  growth :: int
  head :: "ref option"
  current :: "ref option"
  prevfocus :: "ref option"
  showpanel :: bool

record monitor =
  showpanel :: bool
  current_desktop :: int
  previous_desktop :: int
  growth :: int
  mode :: int
  master_size :: int
  wh :: int
  ww :: int
  wx :: int
  wy :: int
  head :: "ref option"
  prevfocus :: "ref option"
  current :: "ref option"
  desktops :: "desktop list"

text \<open>\<^verbatim>\<open>AppRule\<close> of the source: class, desktop, follow, floating.\<close>

record AppRule =
  rule_class :: string
  rule_desktop :: int
  rule_follow :: bool
  rule_floating :: bool

text \<open>
  The constants of \<^verbatim>\<open>config.h\<close>, which is not part of the sources at hand, are the
  fields of a record that every function takes as its first argument. \<open>MASTER_SIZE\<close> is the
  decimal fraction written there (a \<^verbatim>\<open>double\<close> in C, see \<open>binary64\<close>); of the button table only the mask and the button of each
  entry are kept. \<open>XINERAMA\<close> is the macro of the same name, set by the build.
\<close>

record config =
  DESKTOPS :: int
  DEFAULT_DESKTOP :: int
  DEFAULT_MONITOR :: int
  DEFAULT_MODE :: int
  MASTER_SIZE :: rat
  SHOW_PANEL :: bool
  TOP_PANEL :: bool
  PANEL_HEIGHT :: int
  BORDER_WIDTH :: int
  MINWSZ :: int
  ATTACH_ASIDE :: bool
  FOLLOW_MOUSE :: bool
  FOLLOW_MONITOR :: bool
  FOLLOW_WINDOW :: bool
  CLICK_TO_FOCUS :: bool
  XINERAMA :: bool
  buttons :: "(32 word \<times> 32 word) list"
  rules :: "AppRule list"

text \<open>\<^verbatim>\<open>enum { TILE, MONOCLE, BSTACK, GRID, MODES }\<close> and the two atom tables.\<close>

abbreviation (input) TILE :: int where "TILE \<equiv> 0"
abbreviation (input) MONOCLE :: int where "MONOCLE \<equiv> 1"
abbreviation (input) BSTACK :: int where "BSTACK \<equiv> 2"
abbreviation (input) GRID :: int where "GRID \<equiv> 3"

abbreviation (input) WM_PROTOCOLS :: nat where "WM_PROTOCOLS \<equiv> 0"
abbreviation (input) WM_DELETE_WINDOW :: nat where "WM_DELETE_WINDOW \<equiv> 1"
abbreviation (input) NET_SUPPORTED :: nat where "NET_SUPPORTED \<equiv> 0"
abbreviation (input) NET_FULLSCREEN :: nat where "NET_FULLSCREEN \<equiv> 1"
abbreviation (input) NET_WM_STATE :: nat where "NET_WM_STATE \<equiv> 2"
abbreviation (input) NET_ACTIVE :: nat where "NET_ACTIVE \<equiv> 3"

abbreviation (input) XCB_CURRENT_TIME :: "32 word" where "XCB_CURRENT_TIME \<equiv> 0"
abbreviation (input) XCB_MOD_MASK_LOCK :: "32 word" where "XCB_MOD_MASK_LOCK \<equiv> 2"
abbreviation (input) XCB_BUTTON_INDEX_1 :: "32 word" where "XCB_BUTTON_INDEX_1 \<equiv> 1"
abbreviation (input) XCB_BUTTON_MASK_ANY :: "32 word" where "XCB_BUTTON_MASK_ANY \<equiv> 32768"

text \<open>
  \<^verbatim>\<open>xcb_client_message_event_t\<close> as \<open>deletewindow\<close> fills it. A word of \<open>data32\<close>
  is \<open>None\<close> when the code never assigns it: the event is a local variable of
  \<open>deletewindow\<close> and is not cleared before use.
\<close>

record client_message =
  cm_window :: window
  cm_format :: nat
  cm_type :: atom
  cm_data32 :: "32 word option list"

text \<open>The requests sent to the X server, with the arguments of the source's wrappers.\<close>

datatype xreq =
    MoveResize window int int int int
  | Move window int int
  | Resize window int int
  | RaiseWindow window
  | BorderWidth window int
  | BorderPixel window "32 word"
  | GrabButton window "32 word" "32 word"
  | EventMask window bool
  | MapWindow window
  | UnmapWindow window
  | DeleteProperty window atom
  | ChangeProperty window atom "32 word list"
  | SetInputFocus window
  | SendEvent window client_message
  | KillClient window

text \<open>One record of the status line that \<open>desktopinfo\<close> prints, with its separator.\<close>

type_synonym info = "int \<times> bool \<times> int \<times> int \<times> int \<times> bool \<times> bool \<times> char"

text \<open>
  The global variables. \<open>clients\<close> is the heap of client cells and \<open>brk\<close> the next
  address \<^verbatim>\<open>calloc\<close> hands out; \<open>xreqs\<close> are the requests sent so far and \<open>out\<close> the
  records written to the standard output. The pointer \<^verbatim>\<open>CM\<close> of the source is assigned
  in \<open>select_monitor\<close> only, together with \<open>current_monitor\<close>, so it is read here as
  \<open>monitors[current_monitor]\<close>.
\<close>

record wm =
  running :: bool
  retval :: int
  current_monitor :: int
  previous_monitor :: int
  MONITORS :: int
  numlockmask :: "32 word"
  win_unfocus :: "32 word"
  win_focus :: "32 word"
  monitors :: "monitor list"
  root :: window
  wmatoms :: "nat \<Rightarrow> atom"
  netatoms :: "nat \<Rightarrow> atom"
  clients :: heap
  brk :: ref
  xreqs :: "xreq list"
  out :: "info list"

definition ISFFT :: "client \<Rightarrow> bool" where
  "ISFFT c \<longleftrightarrow> isfullscrn c \<or> isfloating c \<or> istransient c"

definition deref :: "heap \<Rightarrow> ref option \<Rightarrow> client option" where
  "deref h p = (case p of None \<Rightarrow> None | Some r \<Rightarrow> h r)"

definition getCM :: "wm \<Rightarrow> monitor option" where
  "getCM s =
     (if 0 \<le> current_monitor s \<and> nat (current_monitor s) < length (monitors s)
      then Some (monitors s ! nat (current_monitor s)) else None)"

definition putCM :: "monitor \<Rightarrow> wm \<Rightarrow> wm" where
  "putCM m s = s\<lparr>monitors := (monitors s)[nat (current_monitor s) := m]\<rparr>"

definition emit :: "xreq list \<Rightarrow> wm \<Rightarrow> wm" where
  "emit rs s = s\<lparr>xreqs := xreqs s @ rs\<rparr>"

text \<open>C division and remainder; the divisor zero has no result.\<close>

definition cdiv :: "int \<Rightarrow> int \<Rightarrow> int option" where
  "cdiv a b = (if b = 0 then None else Some (a sdiv b))"

definition cmod :: "int \<Rightarrow> int \<Rightarrow> int option" where
  "cmod a b = (if b = 0 then None else Some (a smod b))"

text \<open>
  The loop \<^verbatim>\<open>for (c = p; c; c = c->next) body\<close> over a list that the body does not
  relink; \<open>a\<close> carries the local variables the body changes.
\<close>

partial_function (option) for_clients ::
  "(ref \<Rightarrow> client \<Rightarrow> 'a \<Rightarrow> 'a option) \<Rightarrow> heap \<Rightarrow> ref option \<Rightarrow> 'a \<Rightarrow> 'a option" where
  "for_clients body h c a =
     (case c of None \<Rightarrow> Some a
      | Some r \<Rightarrow> do { cl \<leftarrow> h r; a' \<leftarrow> body r cl a; for_clients body h (nxt cl) a' })"


subsection \<open>Monitors and desktops\<close>

definition select_monitor :: "int \<Rightarrow> wm \<Rightarrow> wm" where
  "select_monitor i s = (if MONITORS s \<le> i then s else s\<lparr>current_monitor := i\<rparr>)"

definition save_desktop :: "config \<Rightarrow> int \<Rightarrow> wm \<Rightarrow> wm option" where
  "save_desktop cfg i s =
     (if i < 0 \<or> DESKTOPS cfg \<le> i then Some s
      else do {
        m \<leftarrow> getCM s;
        if nat i < length (desktops m)
        then Some (putCM (m\<lparr>desktops := (desktops m)[nat i :=
               \<lparr>desktop.master_size = master_size m, desktop.mode = mode m,
                desktop.growth = growth m, desktop.head = head m,
                desktop.current = current m, desktop.prevfocus = prevfocus m,
                desktop.showpanel = showpanel m\<rparr>]\<rparr>) s)
        else None })"

definition select_desktop :: "config \<Rightarrow> int \<Rightarrow> wm \<Rightarrow> wm option" where
  "select_desktop cfg i s =
     (if i < 0 \<or> DESKTOPS cfg \<le> i then Some s
      else do {
        m0 \<leftarrow> getCM s;
        s1 \<leftarrow> save_desktop cfg (current_desktop m0) s;
        m \<leftarrow> getCM s1;
        if nat i < length (desktops m)
        then let d = desktops m ! nat i in
          Some (putCM (m\<lparr>master_size := desktop.master_size d, mode := desktop.mode d,
                         growth := desktop.growth d, head := desktop.head d,
                         current := desktop.current d, showpanel := desktop.showpanel d,
                         prevfocus := desktop.prevfocus d, current_desktop := i\<rparr>) s1)
        else None })"

subsection \<open>Window to client\<close>

text \<open>
  The inner loop of \<open>wintoclient\<close>,
  \<^verbatim>\<open>for (c = CM->head; c && !(found = (w == c->win)); c = c->next);\<close>
  returns \<open>c\<close> and \<open>found\<close> as they are when it ends.
\<close>

partial_function (option) wintoclient_scan ::
  "heap \<Rightarrow> window \<Rightarrow> ref option \<Rightarrow> bool \<Rightarrow> (ref option \<times> bool) option" where
  "wintoclient_scan h w c found =
     (case c of None \<Rightarrow> Some (None, found)
      | Some r \<Rightarrow> do {
          cl \<leftarrow> h r;
          if w = win cl then Some (Some r, True) else wintoclient_scan h w (nxt cl) False })"

text \<open>The outer loop, over the desktops of the current monitor; it returns \<open>c\<close> and \<open>d\<close>.\<close>

function wintoclient_desktops ::
  "config \<Rightarrow> window \<Rightarrow> int \<Rightarrow> bool \<Rightarrow> ref option \<Rightarrow> wm \<Rightarrow> (ref option \<times> int \<times> wm) option" where
  "wintoclient_desktops cfg w d found c s =
     (if d < DESKTOPS cfg \<and> \<not> found
      then (case select_desktop cfg d s of None \<Rightarrow> None
            | Some s1 \<Rightarrow> (case getCM s1 of None \<Rightarrow> None
               | Some m \<Rightarrow> (case wintoclient_scan (clients s1) w (head m) found of None \<Rightarrow> None
                  | Some (c', found') \<Rightarrow> wintoclient_desktops cfg w (d + 1) found' c' s1)))
      else Some (c, d, s))"
  by pat_completeness auto
termination
  by (relation "measure (\<lambda>(cfg, w, d, found, c, s). nat (DESKTOPS cfg - d))") auto

declare wintoclient_desktops.simps [simp del]

definition wintoclient :: "config \<Rightarrow> window \<Rightarrow> wm \<Rightarrow> (ref option \<times> wm) option" where
  "wintoclient cfg w s = do {
     m \<leftarrow> getCM s;
     let cd = current_desktop m;
     (c, d, s1) \<leftarrow> wintoclient_desktops cfg w 0 False None s;
     s2 \<leftarrow> (if cd \<noteq> d - 1 then select_desktop cfg cd s1 else Some s1);
     Some (c, s2) }"

subsection \<open>Monitor lookup\<close>

text \<open>The loop of \<open>areatomonitor\<close> from index \<open>m\<close> on; \<open>None\<close> when no monitor matches.\<close>

function areatomonitor_from :: "wm \<Rightarrow> int \<Rightarrow> int \<Rightarrow> int \<Rightarrow> int option option" where
  "areatomonitor_from s x y m =
     (if m < MONITORS s
      then (if 0 \<le> m \<and> nat m < length (monitors s)
            then (let mo = monitors s ! nat m in
                  if wx mo < x \<and> wx mo + ww mo > x \<and> wy mo < y \<and> wy mo + wh mo > y
                  then Some (Some m) else areatomonitor_from s x y (m + 1))
            else None)
      else Some None)"
  by pat_completeness auto
termination
  by (relation "measure (\<lambda>(s, x, y, m). nat (MONITORS s - m))") auto

declare areatomonitor_from.simps [simp del]

definition areatomonitor :: "wm \<Rightarrow> int \<Rightarrow> int \<Rightarrow> int option" where
  "areatomonitor s x y = do {
     r \<leftarrow> areatomonitor_from s x y 0;
     Some (case r of Some m \<Rightarrow> m | None \<Rightarrow> current_monitor s) }"


subsection \<open>Previous client\<close>

text \<open>The loop \<^verbatim>\<open>for (p = CM->head; p->next && p->next != c; p = p->next);\<close>\<close>

partial_function (option) prev_client_loop :: "heap \<Rightarrow> ref \<Rightarrow> ref \<Rightarrow> ref option" where
  "prev_client_loop h p c = do {
     pc \<leftarrow> h p;
     case nxt pc of None \<Rightarrow> Some p
     | Some q \<Rightarrow> if q = c then Some p else prev_client_loop h q c }"

definition prev_client :: "wm \<Rightarrow> ref option \<Rightarrow> ref option option" where
  "prev_client s c =
     (case c of None \<Rightarrow> Some None
      | Some cr \<Rightarrow> do {
          m \<leftarrow> getCM s;
          case head m of None \<Rightarrow> None
          | Some hr \<Rightarrow> do {
              hc \<leftarrow> clients s hr;
              if nxt hc = None then Some None
              else do { p \<leftarrow> prev_client_loop (clients s) hr cr; Some (Some p) } } })"

subsection \<open>Layouts\<close>

text \<open>
  A layout reads the current monitor and the client list and sends one request per
  client it places; it returns the requests in the order in which it sends them.
\<close>

definition monocle :: "config \<Rightarrow> int \<Rightarrow> int \<Rightarrow> monitor \<Rightarrow> heap \<Rightarrow> xreq list option" where
  "monocle cfg hh cy m h =
     for_clients (\<lambda>r c rs. Some (if \<not> ISFFT c then rs @ [MoveResize (win c) 0 cy (ww m) hh] else rs))
       h (head m) []"

text \<open>\<^verbatim>\<open>for (c = c->next; c && ISFFT(c); c = c->next);\<close> of \<open>stack\<close>, from \<open>c->next\<close> on.\<close>

partial_function (option) stack_skip :: "heap \<Rightarrow> ref option \<Rightarrow> ref option option" where
  "stack_skip h c =
     (case c of None \<Rightarrow> Some None
      | Some r \<Rightarrow> do { cl \<leftarrow> h r; if ISFFT cl then stack_skip h (nxt cl) else Some c })"

definition stack :: "config \<Rightarrow> int \<Rightarrow> int \<Rightarrow> monitor \<Rightarrow> heap \<Rightarrow> xreq list option" where
  "stack cfg hh cy m h = do {
     let b = (mode m = BSTACK);
     let z = (if b then ww m else hh);
     let ma = master_size m;
     let bw = BORDER_WIDTH cfg;
     (c, n) \<leftarrow> for_clients
        (\<lambda>r t (c, n). Some (if \<not> ISFFT t then (if c \<noteq> None then (c, n + 1) else (Some r, n)) else (c, n)))
        h (head m) (None, 0::int);
     case c of None \<Rightarrow> Some []
     | Some cr \<Rightarrow> do {
         cl \<leftarrow> h cr;
         if n = 0 then Some [MoveResize (win cl) 0 cy (ww m - 2 * bw) (hh - 2 * bw)]
         else do {
           let d = (if n > 1 then (z - growth m) smod n + growth m else 0);
           let z = (if n > 1 then (z - growth m) sdiv n else z);
           let r1 = (if b then MoveResize (win cl) 0 cy (ww m - 2 * bw) (ma - bw)
                     else MoveResize (win cl) 0 cy (ma - bw) (hh - 2 * bw));
           c2 \<leftarrow> stack_skip h (nxt cl);
           let cx = (if b then 0 else ma);
           let cw = (if b then hh else ww m) - 2 * bw - ma;
           let ch = z - bw;
           cl2 \<leftarrow> deref h c2;
           let cy = (if b then cy + ma else cy);
           let r2 = (if b then MoveResize (win cl2) cx cy (ch - bw + d) cw
                     else MoveResize (win cl2) cx cy cw (ch - bw + d));
           let cx = (if b then cx + (ch + d) else cx);
           let cy = (if b then cy else cy + (ch + d));
           (cx', cy', rs) \<leftarrow> for_clients
              (\<lambda>r t (cx, cy, rs). Some (
                 if ISFFT t then (cx, cy, rs)
                 else if b then (cx + z, cy, rs @ [MoveResize (win t) cx cy ch cw])
                 else (cx, cy + z, rs @ [MoveResize (win t) cx cy cw ch])))
              h (nxt cl2) (cx, cy, [r1, r2]);
           Some rs } } }"

text \<open>\<^verbatim>\<open>for (cols = 0; cols <= n/2; cols++) if (cols*cols >= n) break;\<close>\<close>

function grid_cols :: "int \<Rightarrow> int \<Rightarrow> int" where
  "grid_cols n cols =
     (if cols \<le> n sdiv 2 then (if cols * cols \<ge> n then cols else grid_cols n (cols + 1))
      else cols)"
  by pat_completeness auto
termination
  by (relation "measure (\<lambda>(n, cols). nat (n sdiv 2 + 1 - cols))") auto

declare grid_cols.simps [simp del]

text \<open>The columns and the base row count of \<open>grid\<close> for \<open>n\<close> tiled clients.\<close>

definition grid_dims :: "int \<Rightarrow> (int \<times> int) option" where
  "grid_dims n = do {
     let cols = grid_cols n 0;
     let cols = (if n = 5 then 2 else cols);
     rows \<leftarrow> cdiv n cols;
     Some (cols, rows) }"

definition grid :: "config \<Rightarrow> int \<Rightarrow> int \<Rightarrow> monitor \<Rightarrow> heap \<Rightarrow> xreq list option" where
  "grid cfg hh cy m h = do {
     let bw = BORDER_WIDTH cfg;
     n \<leftarrow> for_clients (\<lambda>r c n. Some (if \<not> ISFFT c then n + 1 else n)) h (head m) (0::int);
     (cols, rows) \<leftarrow> grid_dims n;
     let ch = hh - bw;
     let cw = (ww m - bw) sdiv (if cols \<noteq> 0 then cols else 1);
     (rows', cn, rn, i, rs) \<leftarrow> for_clients
        (\<lambda>r c (rows, cn, rn, i, rs).
           if ISFFT c then Some (rows, cn, rn, i, rs)
           else do {
             let i = i + 1;
             q \<leftarrow> cdiv i rows;
             k \<leftarrow> cmod n cols;
             nc \<leftarrow> cdiv n cols;
             let rows = (if q + 1 > cols - k then nc + 1 else rows);
             y \<leftarrow> cdiv (rn * ch) rows;
             hq \<leftarrow> cdiv ch rows;
             let rs = rs @ [MoveResize (win c) (wx m + cn * cw) (wy m + cy + y) (cw - bw) (hq - bw)];
             let rn = rn + 1;
             Some (if rn \<ge> rows then (rows, cn + 1, 0, i, rs) else (rows, cn, rn, i, rs)) })
        h (head m) (rows, 0::int, 0::int, -1::int, []);
     Some rs }"

text \<open>The table \<open>layout\<close>; an index outside the table has no entry.\<close>

definition layout :: "int \<Rightarrow> (config \<Rightarrow> int \<Rightarrow> int \<Rightarrow> monitor \<Rightarrow> heap \<Rightarrow> xreq list option) option" where
  "layout i =
     (if i = TILE then Some stack else if i = BSTACK then Some stack
      else if i = GRID then Some grid else if i = MONOCLE then Some monocle else None)"

definition tile :: "config \<Rightarrow> wm \<Rightarrow> wm option" where
  "tile cfg s = do {
     m \<leftarrow> getCM s;
     case head m of None \<Rightarrow> Some s
     | Some hr \<Rightarrow> do {
         hc \<leftarrow> clients s hr;
         f \<leftarrow> layout (if nxt hc \<noteq> None then mode m else MONOCLE);
         rs \<leftarrow> f cfg (wh m + (if showpanel m then 0 else PANEL_HEIGHT cfg))
                 (if TOP_PANEL cfg \<and> showpanel m then PANEL_HEIGHT cfg else 0) m (clients s);
         Some (emit rs s) } }"


subsection \<open>Focus\<close>

text \<open>An assignment through a client pointer; the cell must be allocated.\<close>

definition upd_client :: "ref \<Rightarrow> (client \<Rightarrow> client) \<Rightarrow> wm \<Rightarrow> wm option" where
  "upd_client r f s = do { c \<leftarrow> clients s r; Some (s\<lparr>clients := (clients s)(r \<mapsto> f c)\<rparr>) }"

definition set_next :: "ref \<Rightarrow> ref option \<Rightarrow> wm \<Rightarrow> wm option" where
  "set_next r v s = upd_client r (\<lambda>c. c\<lparr>nxt := v\<rparr>) s"

definition grabbuttons :: "config \<Rightarrow> client \<Rightarrow> wm \<Rightarrow> wm" where
  "grabbuttons cfg c s =
     emit (concat (map (\<lambda>(mask, button).
                     map (\<lambda>md. GrabButton (win c) button (mask OR md))
                       [0, XCB_MOD_MASK_LOCK, numlockmask s, numlockmask s OR XCB_MOD_MASK_LOCK])
                   (buttons cfg))) s"

text \<open>
  The body of the loop of \<open>update_current\<close> for the client \<open>c\<close> at address \<open>r\<close>:
  border width, border colour, the button grab and the raise.
\<close>

definition update_current_client :: "config \<Rightarrow> wm \<Rightarrow> monitor \<Rightarrow> ref \<Rightarrow> client \<Rightarrow> xreq list option" where
  "update_current_client cfg s m r c = do {
     hc \<leftarrow> deref (clients s) (head m);
     Some ([BorderWidth (win c)
              (if nxt hc = None \<or> isfullscrn c
                  \<or> (mode m = MONOCLE \<and> (\<not> isfloating c \<and> \<not> istransient c))
               then 0 else BORDER_WIDTH cfg),
            BorderPixel (win c) (if current m = Some r then win_focus s else win_unfocus s)]
         @ (if CLICK_TO_FOCUS cfg
            then [GrabButton (win c) XCB_BUTTON_INDEX_1 XCB_BUTTON_MASK_ANY] else [])
         @ (if isfloating c \<or> istransient c then [] else [RaiseWindow (win c)])) }"

text \<open>The loop over the clients of the current desktop, in list order.\<close>

definition update_current_pass :: "config \<Rightarrow> wm \<Rightarrow> xreq list option" where
  "update_current_pass cfg s = do {
     m \<leftarrow> getCM s;
     for_clients (\<lambda>r c rs. do { q \<leftarrow> update_current_client cfg s m r c; Some (rs @ q) })
       (clients s) (head m) [] }"

text \<open>
  What \<open>update_current\<close> does once \<^verbatim>\<open>CM->current\<close> and \<^verbatim>\<open>CM->prevfocus\<close> are set: the
  loop over the clients, the raise of a floating or transient current client, the active
  window property, the input focus, the button grabs and the tiling pass.
\<close>

definition update_current_show :: "config \<Rightarrow> wm \<Rightarrow> wm option" where
  "update_current_show cfg s1 = do {
     rs \<leftarrow> update_current_pass cfg s1;
     m1 \<leftarrow> getCM s1;
     cur \<leftarrow> deref (clients s1) (current m1);
     let s2 = emit (rs
                @ (if isfloating cur \<or> istransient cur then [RaiseWindow (win cur)] else [])
                @ [ChangeProperty (root s1) (netatoms s1 NET_ACTIVE) [win cur],
                   SetInputFocus (win cur)]) s1;
     tile cfg (if CLICK_TO_FOCUS cfg then grabbuttons cfg cur s2 else s2) }"

definition update_current :: "config \<Rightarrow> ref option \<Rightarrow> wm \<Rightarrow> wm option" where
  "update_current cfg c s =
     (if c = None then do {
        m \<leftarrow> getCM s;
        Some (putCM (m\<lparr>current := None, prevfocus := None\<rparr>)
                (emit [DeleteProperty (root s) (netatoms s NET_ACTIVE)] s)) }
      else do {
        m \<leftarrow> getCM s;
        s1 \<leftarrow> (if c = prevfocus m then do {
                  let s' = putCM (m\<lparr>current := prevfocus m\<rparr>) s;
                  p \<leftarrow> prev_client s' (prevfocus m);
                  m' \<leftarrow> getCM s';
                  Some (putCM (m'\<lparr>prevfocus := p\<rparr>) s') }
                else if c \<noteq> current m
                then Some (putCM (m\<lparr>prevfocus := current m, current := c\<rparr>) s)
                else Some s);
        update_current_show cfg s1 })"

text \<open>The inner loop of \<open>focusurgent\<close>, over the list of one monitor.\<close>

partial_function (option) focusurgent_clients :: "config \<Rightarrow> ref option \<Rightarrow> wm \<Rightarrow> wm option" where
  "focusurgent_clients cfg c s =
     (case c of None \<Rightarrow> Some s
      | Some r \<Rightarrow> do {
          cl \<leftarrow> clients s r;
          s1 \<leftarrow> (if isurgent cl then update_current cfg (Some r) s else Some s);
          cl1 \<leftarrow> clients s1 r;
          focusurgent_clients cfg (nxt cl1) s1 })"

text \<open>The outer loop, over \<open>monitors[m]\<close> for \<open>m\<close> below \<open>MONITORS\<close>.\<close>

partial_function (option) focusurgent_monitors :: "config \<Rightarrow> int \<Rightarrow> wm \<Rightarrow> wm option" where
  "focusurgent_monitors cfg m s =
     (if m < MONITORS s
      then (if 0 \<le> m \<and> nat m < length (monitors s)
            then do {
              s1 \<leftarrow> focusurgent_clients cfg (head (monitors s ! nat m)) s;
              focusurgent_monitors cfg (m + 1) s1 }
            else None)
      else Some s)"

definition focusurgent :: "config \<Rightarrow> wm \<Rightarrow> wm option" where
  "focusurgent cfg s = focusurgent_monitors cfg 0 s"

subsection \<open>Status line\<close>

text \<open>The loop of \<open>desktopinfo\<close> over the desktops of monitor \<open>m\<close>; it returns \<open>d\<close>.\<close>

function desktopinfo_desktops ::
  "config \<Rightarrow> int \<Rightarrow> int \<Rightarrow> int \<Rightarrow> int \<Rightarrow> wm \<Rightarrow> (int \<times> wm) option" where
  "desktopinfo_desktops cfg m OLDM cd d s =
     (if d < DESKTOPS cfg
      then (case select_desktop cfg d s of None \<Rightarrow> None
            | Some s1 \<Rightarrow> (case getCM s1 of None \<Rightarrow> None
               | Some mo \<Rightarrow>
                  (case for_clients (\<lambda>r c (n, urgent). Some (n + 1, urgent \<or> isurgent c))
                          (clients s1) (head mo) (0::int, False) of None \<Rightarrow> None
                   | Some (n, urgent) \<Rightarrow>
                       desktopinfo_desktops cfg m OLDM cd (d + 1)
                         (s1\<lparr>out := out s1 @ [(m, current_monitor s1 = OLDM, d, n, mode mo,
                              current_desktop mo = cd, urgent,
                              if m + 1 = MONITORS s1 \<and> d + 1 = DESKTOPS cfg
                              then CHR 0x0A else CHR '' '')]\<rparr>))))
      else Some (d, s))"
  by pat_completeness auto
termination
  by (relation "measure (\<lambda>(cfg, m, OLDM, cd, d, s). nat (DESKTOPS cfg - d))") auto

declare desktopinfo_desktops.simps [simp del]

text \<open>The loop over the monitors; it returns \<open>cd\<close> and \<open>d\<close> as the last pass leaves them.\<close>

partial_function (option) desktopinfo_monitors ::
  "config \<Rightarrow> int \<Rightarrow> int \<Rightarrow> int \<Rightarrow> int \<Rightarrow> wm \<Rightarrow> (int \<times> int \<times> wm) option" where
  "desktopinfo_monitors cfg OLDM m cd d s =
     (if m < MONITORS s
      then do {
        let s1 = select_monitor m s;
        mo \<leftarrow> getCM s1;
        let cd = current_desktop mo;
        (d, s2) \<leftarrow> desktopinfo_desktops cfg m OLDM cd 0 s1;
        s3 \<leftarrow> select_desktop cfg cd s2;
        desktopinfo_monitors cfg OLDM (m + 1) cd d s3 }
      else Some (cd, d, s))"

definition desktopinfo :: "config \<Rightarrow> wm \<Rightarrow> wm option" where
  "desktopinfo cfg s = do {
     let OLDM = current_monitor s;
     (cd, d, s1) \<leftarrow> desktopinfo_monitors cfg OLDM 0 0 0 s;
     let s2 = select_monitor OLDM s1;
     if cd \<noteq> d - 1 then select_desktop cfg cd s2 else Some s2 }"


subsection \<open>Changing monitor and desktop\<close>

definition change_monitor :: "config \<Rightarrow> int \<Rightarrow> wm \<Rightarrow> wm option" where
  "change_monitor cfg i s =
     (if i = current_monitor s then Some s
      else do {
        let s1 = select_monitor i (s\<lparr>previous_monitor := current_monitor s\<rparr>);
        m \<leftarrow> getCM s1;
        s2 \<leftarrow> update_current cfg (current m) s1;
        desktopinfo cfg s2 })"

definition change_desktop :: "config \<Rightarrow> int \<Rightarrow> wm \<Rightarrow> wm option" where
  "change_desktop cfg i s = do {
     m \<leftarrow> getCM s;
     if i = current_desktop m then Some s
     else do {
       s1 \<leftarrow> select_desktop cfg i (putCM (m\<lparr>previous_desktop := current_desktop m\<rparr>) s);
       m1 \<leftarrow> getCM s1;
       r1 \<leftarrow> (case current m1 of None \<Rightarrow> Some []
               | Some r \<Rightarrow> do { c \<leftarrow> clients s1 r; Some [MapWindow (win c)] });
       r2 \<leftarrow> for_clients (\<lambda>r c rs. Some (rs @ [MapWindow (win c)])) (clients s1) (head m1) [];
       s2 \<leftarrow> update_current cfg (current m1) (emit (r1 @ r2) s1);
       m2 \<leftarrow> getCM s2;
       s3 \<leftarrow> select_desktop cfg (previous_desktop m2) s2;
       m3 \<leftarrow> getCM s3;
       r3 \<leftarrow> for_clients
               (\<lambda>r c rs. Some (if Some r \<noteq> current m3 then rs @ [UnmapWindow (win c)] else rs))
               (clients s3) (head m3) [];
       r4 \<leftarrow> (case current m3 of None \<Rightarrow> Some []
               | Some r \<Rightarrow> do { c \<leftarrow> clients s3 r; Some [UnmapWindow (win c)] });
       s4 \<leftarrow> select_desktop cfg i (emit (r3 @ r4) s3);
       desktopinfo cfg s4 } }"

subsection \<open>Adding and removing clients\<close>

text \<open>
  \<open>addwindow\<close> returns the new client. \<^verbatim>\<open>calloc\<close> returns a cleared cell at a fresh
  address; the model has no allocation failure.
\<close>

definition addwindow :: "config \<Rightarrow> window \<Rightarrow> wm \<Rightarrow> (ref \<times> wm) option" where
  "addwindow cfg w s = do {
     m \<leftarrow> getCM s;
     t \<leftarrow> prev_client s (head m);
     let c = brk s;
     let s1 = s\<lparr>clients := (clients s)(c \<mapsto>
                 \<lparr>nxt = None, monitor = 0, isurgent = False, istransient = False,
                  isfullscrn = False, isfloating = False, win = 0\<rparr>),
               brk := Suc c\<rparr>;
     s2 \<leftarrow> (case head m of None \<Rightarrow> Some (putCM (m\<lparr>head := Some c\<rparr>) s1)
             | Some hr \<Rightarrow>
                 if \<not> ATTACH_ASIDE cfg
                 then do { s' \<leftarrow> set_next c (head m) s1; Some (putCM (m\<lparr>head := Some c\<rparr>) s') }
                 else (case t of Some tr \<Rightarrow> set_next tr (Some c) s1
                       | None \<Rightarrow> set_next hr (Some c) s1));
     s3 \<leftarrow> upd_client c (\<lambda>cl. cl\<lparr>win := w\<rparr>) s2;
     Some (c, emit [EventMask w (FOLLOW_MOUSE cfg)] s3) }"

definition setfullscreen :: "config \<Rightarrow> ref \<Rightarrow> bool \<Rightarrow> wm \<Rightarrow> wm option" where
  "setfullscreen cfg c fullscrn s = do {
     cl \<leftarrow> clients s c;
     let s1 = (if fullscrn \<noteq> isfullscrn cl
               then emit [ChangeProperty (win cl) (netatoms s NET_WM_STATE)
                            (if fullscrn then [netatoms s NET_FULLSCREEN] else [])] s
               else s);
     s2 \<leftarrow> upd_client c (\<lambda>cl. cl\<lparr>isfullscrn := fullscrn\<rparr>) s1;
     m \<leftarrow> getCM s2;
     let s3 = (if fullscrn
               then emit [MoveResize (win cl) 0 0 (ww m) (wh m + PANEL_HEIGHT cfg)] s2 else s2);
     update_current cfg (Some c) s3 }"

text \<open>
  The pointer \<^verbatim>\<open>client **p\<close> of \<open>removeclient\<close> points to the head of the current monitor
  or to the \<^verbatim>\<open>next\<close> field of a client.
\<close>

datatype loc = HeadLoc | NextLoc ref

definition read_loc :: "wm \<Rightarrow> loc \<Rightarrow> ref option option" where
  "read_loc s p =
     (case p of HeadLoc \<Rightarrow> map_option head (getCM s)
      | NextLoc r \<Rightarrow> map_option nxt (clients s r))"

definition write_loc :: "loc \<Rightarrow> ref option \<Rightarrow> wm \<Rightarrow> wm option" where
  "write_loc p v s =
     (case p of HeadLoc \<Rightarrow> do { m \<leftarrow> getCM s; Some (putCM (m\<lparr>head := v\<rparr>) s) }
      | NextLoc r \<Rightarrow> set_next r v s)"

text \<open>\<^verbatim>\<open>for (p = &CM->head; *p && !(found = *p == c); p = &(*p)->next);\<close> from \<open>p\<close> on.\<close>

partial_function (option) removeclient_scan ::
  "wm \<Rightarrow> ref \<Rightarrow> loc \<Rightarrow> bool \<Rightarrow> (loc \<times> bool) option" where
  "removeclient_scan s c p found = do {
     v \<leftarrow> read_loc s p;
     case v of None \<Rightarrow> Some (p, found)
     | Some q \<Rightarrow> if q = c then Some (p, True) else removeclient_scan s c (NextLoc q) False }"

function removeclient_desktops ::
  "config \<Rightarrow> ref \<Rightarrow> int \<Rightarrow> bool \<Rightarrow> loc option \<Rightarrow> wm \<Rightarrow> (loc option \<times> int \<times> wm) option" where
  "removeclient_desktops cfg c nd found p s =
     (if nd < DESKTOPS cfg \<and> \<not> found
      then (case select_desktop cfg nd s of None \<Rightarrow> None
            | Some s1 \<Rightarrow>
               (case removeclient_scan s1 c HeadLoc found of None \<Rightarrow> None
                | Some (p', found') \<Rightarrow> removeclient_desktops cfg c (nd + 1) found' (Some p') s1))
      else Some (p, nd, s))"
  by pat_completeness auto
termination
  by (relation "measure (\<lambda>(cfg, c, nd, found, p, s). nat (DESKTOPS cfg - nd))") auto

declare removeclient_desktops.simps [simp del]

definition removeclient :: "config \<Rightarrow> ref \<Rightarrow> wm \<Rightarrow> wm option" where
  "removeclient cfg c s = do {
     let OLDM = current_monitor s;
     cl \<leftarrow> clients s c;
     let s1 = select_monitor (monitor cl) s;
     m1 \<leftarrow> getCM s1;
     let cd = current_desktop m1;
     (p, nd, s2) \<leftarrow> removeclient_desktops cfg c 0 False None s1;
     pl \<leftarrow> p;
     cl2 \<leftarrow> clients s2 c;
     s3 \<leftarrow> write_loc pl (nxt cl2) s2;
     let s4 = s3\<lparr>clients := (clients s3)(c := None)\<rparr>;
     m4 \<leftarrow> getCM s4;
     s5 \<leftarrow> update_current cfg (prevfocus m4) s4;
     let s6 = select_monitor OLDM s5;
     if cd \<noteq> nd - 1 then select_desktop cfg cd s6 else Some s6 }"

definition deletewindow :: "window \<Rightarrow> wm \<Rightarrow> wm" where
  "deletewindow w s =
     emit [SendEvent w
             \<lparr>cm_window = w, cm_format = 32, cm_type = wmatoms s WM_PROTOCOLS,
              cm_data32 = [Some (wmatoms s WM_DELETE_WINDOW), Some XCB_CURRENT_TIME,
                           None, None, None]\<rparr>] s"

text \<open>
  \<^verbatim>\<open>for(; n != reply.atoms_len; ++n) if ((got = reply.atoms[n] == wmatoms[WM_DELETE_WINDOW])) break;\<close>
\<close>

fun killclient_scan :: "atom \<Rightarrow> atom list \<Rightarrow> bool \<Rightarrow> bool" where
  "killclient_scan del [] got = got"
| "killclient_scan del (a # as) got = (if a = del then True else killclient_scan del as False)"

text \<open>
  \<open>reply\<close> is the server's answer to the \<^verbatim>\<open>WM_PROTOCOLS\<close> query for the current window:
  the atoms of the property, or \<open>None\<close> when there is no answer.
\<close>

definition killclient :: "config \<Rightarrow> atom list option \<Rightarrow> wm \<Rightarrow> wm option" where
  "killclient cfg reply s = do {
     m \<leftarrow> getCM s;
     case current m of None \<Rightarrow> Some s
     | Some c \<Rightarrow> do {
         cl \<leftarrow> clients s c;
         let got = (case reply of None \<Rightarrow> False
                    | Some atoms \<Rightarrow> killclient_scan (wmatoms s WM_DELETE_WINDOW) atoms False);
         let s1 = (if got then deletewindow (win cl) s else emit [KillClient (win cl)] s);
         removeclient cfg c s1 } }"


subsection \<open>Moving the current client in its list\<close>




subsection \<open>Resizing the master area\<close>

definition resize_master :: "config \<Rightarrow> int \<Rightarrow> wm \<Rightarrow> wm option" where
  "resize_master cfg i s = do {
     m \<leftarrow> getCM s;
     let msz = master_size m + i;
     if (if mode m = BSTACK then wh m else ww m) - msz \<le> MINWSZ cfg \<or> msz \<le> MINWSZ cfg
     then Some s
     else tile cfg (putCM (m\<lparr>master_size := msz\<rparr>) s) }"

subsection \<open>Moving a client to another monitor\<close>

definition client_to_monitor :: "config \<Rightarrow> int \<Rightarrow> wm \<Rightarrow> wm option" where
  "client_to_monitor cfg i s = do {
     m \<leftarrow> getCM s;
     cur \<leftarrow> (case current m of None \<Rightarrow> Some None
             | Some c \<Rightarrow> map_option Some (clients s c));
     if (case cur of None \<Rightarrow> False | Some cc \<Rightarrow> i < MONITORS s \<and> monitor cc = i) then Some s
     else do {
       c \<leftarrow> current m;
       cc \<leftarrow> cur;
       let w = win cc;
       let OLDM = current_monitor s;
       s1 \<leftarrow> removeclient cfg c (emit [UnmapWindow w] s);
       (c', s2) \<leftarrow> addwindow cfg w (select_monitor i s1);
       m2 \<leftarrow> getCM s2;
       s3 \<leftarrow> upd_client c' (\<lambda>cl. cl\<lparr>isfloating := isfloating cc, isfullscrn := isfullscrn cc,
                                    istransient := istransient cc\<rparr>)
               (putCM (m2\<lparr>current := Some c'\<rparr>) s2);
       s4 \<leftarrow> tile cfg s3;
       m4 \<leftarrow> getCM s4;
       cur4 \<leftarrow> deref (clients s4) (current m4);
       s5 \<leftarrow> tile cfg (select_monitor OLDM (emit [MapWindow (win cur4)] s4));
       m5 \<leftarrow> getCM s5;
       s6 \<leftarrow> update_current cfg (current m5) s5;
       s7 \<leftarrow> (if FOLLOW_WINDOW cfg then change_monitor cfg i s6 else Some s6);
       desktopinfo cfg s7 } }"

subsection \<open>Pointer motion\<close>

text \<open>\<open>motionnotify\<close> with the root coordinates of the event.\<close>

definition motionnotify :: "config \<Rightarrow> int \<Rightarrow> int \<Rightarrow> wm \<Rightarrow> wm option" where
  "motionnotify cfg root_x root_y s =
     (if \<not> FOLLOW_MONITOR cfg then Some s
      else do {
        area_monitor \<leftarrow> areatomonitor s root_x root_y;
        if area_monitor \<noteq> current_monitor s then change_monitor cfg area_monitor s else Some s })"

text \<open>\<^verbatim>\<open>enum { PREV = -1, NEXT = 1, RESIZE, MOVE }\<close>\<close>

abbreviation (input) RESIZE :: int where "RESIZE \<equiv> 2"
abbreviation (input) MOVE :: int where "MOVE \<equiv> 3"

text \<open>
  The branch \<^verbatim>\<open>case XCB_MOTION_NOTIFY\<close> of the event loop of \<open>mousemotion\<close>: \<open>arg\<close> is
  \<open>MOVE\<close> or \<open>RESIZE\<close>, \<open>winx\<close> to \<open>winh\<close> the geometry of the current window and \<open>mx\<close>,
  \<open>my\<close> the pointer position when the drag began, \<open>root_x\<close> and \<open>root_y\<close> those of the
  event.
\<close>

definition mousemotion_motion ::
  "config \<Rightarrow> int \<Rightarrow> int \<times> int \<times> int \<times> int \<Rightarrow> int \<times> int \<Rightarrow> int \<times> int \<Rightarrow> wm \<Rightarrow> wm option" where
  "mousemotion_motion cfg arg geom ptr ev s =
     (case geom of (winx, winy, winw, winh) \<Rightarrow>
      case ptr of (mx, my) \<Rightarrow>
      case ev of (root_x, root_y) \<Rightarrow> do {
        let xw = (if arg = MOVE then winx else winw) + root_x - mx;
        let yh = (if arg = MOVE then winy else winh) + root_y - my;
        m \<leftarrow> getCM s;
        if arg = RESIZE then do {
          cur \<leftarrow> deref (clients s) (current m);
          Some (emit [Resize (win cur) (if xw > MINWSZ cfg then xw else winw)
                        (if yh > MINWSZ cfg then yh else winh)] s) }
        else if arg = MOVE then do {
          cur \<leftarrow> deref (clients s) (current m);
          let s1 = emit [Move (win cur) xw yh] s;
          area_monitor \<leftarrow> areatomonitor s1 xw yh;
          if area_monitor \<noteq> current_monitor s1
          then do { s2 \<leftarrow> client_to_monitor cfg area_monitor s1;
                    change_monitor cfg area_monitor s2 }
          else Some s1 }
        else Some s })"


subsection \<open>Map requests\<close>

text \<open>
  What the X server reports about the window of a map request: the window, the
  \<^verbatim>\<open>override_redirect\<close> flag of its attributes, class and instance name of \<^verbatim>\<open>WM_CLASS\<close>,
  the window of \<^verbatim>\<open>WM_TRANSIENT_FOR\<close> (0 when there is none), and format and first value of
  \<^verbatim>\<open>_NET_WM_STATE\<close>. A reply that fails is \<open>None\<close>.
\<close>

record map_request =
  mr_window :: window
  mr_attr :: "bool option"
  mr_class :: "(string \<times> string) option"
  mr_transient :: window
  mr_state :: "(nat \<times> atom) option"

definition maprequest :: "config \<Rightarrow> map_request \<Rightarrow> wm \<Rightarrow> wm option" where
  "maprequest cfg ev s =
     (if mr_attr ev = None \<or> mr_attr ev = Some True then Some s
      else do {
        (c0, s0) \<leftarrow> wintoclient cfg (mr_window ev) s;
        if c0 \<noteq> None then Some s0
        else do {
          m \<leftarrow> getCM s0;
          let cd = current_desktop m;
          let (follow, newdsk, floating) =
            (case mr_class ev of None \<Rightarrow> (False, cd, False)
             | Some (class_name, instance_name) \<Rightarrow>
                (case find (\<lambda>r. class_name = rule_class r \<or> instance_name = rule_class r)
                        (rules cfg) of
                   None \<Rightarrow> (False, cd, False)
                 | Some r \<Rightarrow> (rule_follow r,
                              if rule_desktop r < 0 then cd else rule_desktop r,
                              rule_floating r)));
          s1 \<leftarrow> (if cd \<noteq> newdsk then select_desktop cfg newdsk s0 else Some s0);
          (c, s2) \<leftarrow> addwindow cfg (mr_window ev) s1;
          s3 \<leftarrow> upd_client c (\<lambda>cl. cl\<lparr>istransient := (mr_transient ev \<noteq> 0),
                                      isfloating := (floating \<or> mr_transient ev \<noteq> 0)\<rparr>) s2;
          s4 \<leftarrow> (case mr_state ev of None \<Rightarrow> Some s3
                  | Some (format, v0) \<Rightarrow>
                      if format = 32 then setfullscreen cfg c (v0 = netatoms s3 NET_FULLSCREEN) s3
                      else Some s3);
          s5 \<leftarrow> update_current cfg (Some c) s4;
          cl \<leftarrow> clients s5 c;
          let s6 = grabbuttons cfg cl s5;
          s7 \<leftarrow> (if cd \<noteq> newdsk then select_desktop cfg cd s6 else Some s6);
          s8 \<leftarrow> (if cd = newdsk
                  then do { cl' \<leftarrow> clients s7 c;
                            update_current cfg (Some c) (emit [MapWindow (win cl')] s7) }
                  else if follow then change_desktop cfg newdsk s7 else Some s7);
          desktopinfo cfg s8 } })"

subsection \<open>Setup\<close>

text \<open>
  A \<^verbatim>\<open>double\<close> is a binary fraction of 53 significant bits (IEEE 754 binary64).
  \<open>binary64 q\<close> is the one nearest to \<open>q\<close>, and of two that are as near the one with the even
  significand; the range of the exponent is not modelled. It is the value of a decimal
  literal, and the product of two doubles is \<open>binary64\<close> of their exact product. An
  \<^verbatim>\<open>int\<close> becomes a \<^verbatim>\<open>double\<close> without rounding.
\<close>

definition pow2 :: "int \<Rightarrow> rat" where
  "pow2 k = (if 0 \<le> k then 2 ^ nat k else 1 / 2 ^ nat (- k))"

definition round_even :: "rat \<Rightarrow> int" where
  "round_even y =
     (let f = \<lfloor>y\<rfloor>; r = y - of_int f
      in if r < 1 / 2 then f else if 1 / 2 < r then f + 1 else if even f then f else f + 1)"

definition binary64 :: "rat \<Rightarrow> rat" where
  "binary64 q =
     (if q = 0 then 0
      else let a = \<bar>q\<bar>; (n, d) = quotient_of a;
               e1 = bitlen n - bitlen d;
               e = (if pow2 e1 \<le> a then e1 else e1 - 1);
               u = pow2 (e - 52)
           in sgn q * of_int (round_even (a / u)) * u)"

text \<open>The conversion of a \<^verbatim>\<open>double\<close> to an \<^verbatim>\<open>int\<close> drops the fraction.\<close>

definition trunc :: "rat \<Rightarrow> int" where
  "trunc q = (if 0 \<le> q then \<lfloor>q\<rfloor> else \<lceil>q\<rceil>)"

text \<open>A cleared \<^verbatim>\<open>desktop\<close> and a cleared \<^verbatim>\<open>monitor\<close>, as \<^verbatim>\<open>calloc\<close> returns them.\<close>

definition zero_desktop :: desktop where
  "zero_desktop = \<lparr>desktop.master_size = 0, desktop.mode = 0, desktop.growth = 0,
     desktop.head = None, desktop.current = None, desktop.prevfocus = None,
     desktop.showpanel = False\<rparr>"

definition zero_monitor :: monitor where
  "zero_monitor = \<lparr>showpanel = False, current_desktop = 0, previous_desktop = 0, growth = 0,
     mode = 0, master_size = 0, wh = 0, ww = 0, wx = 0, wy = 0, head = None,
     prevfocus = None, current = None, desktops = []\<rparr>"

text \<open>\<^verbatim>\<open>for (int d = 0; d < DESKTOPS; d++) save_desktop(d);\<close>\<close>

function setup_monitor_save :: "config \<Rightarrow> int \<Rightarrow> wm \<Rightarrow> wm option" where
  "setup_monitor_save cfg d s =
     (if d < DESKTOPS cfg
      then (case save_desktop cfg d s of None \<Rightarrow> None
            | Some s1 \<Rightarrow> setup_monitor_save cfg (d + 1) s1)
      else Some s)"
  by pat_completeness auto
termination
  by (relation "measure (\<lambda>(cfg, d, s). nat (DESKTOPS cfg - d))") auto

declare setup_monitor_save.simps [simp del]

definition setup_monitor :: "config \<Rightarrow> int \<Rightarrow> int \<Rightarrow> int \<Rightarrow> int \<Rightarrow> int \<Rightarrow> wm \<Rightarrow> wm option" where
  "setup_monitor cfg i x y w h s = do {
     let s1 = select_monitor i s;
     m \<leftarrow> getCM s1;
     let m1 = m\<lparr>desktops := replicate (nat (DESKTOPS cfg)) zero_desktop,
                ww := w, wh := h, wx := x, wy := y,
                showpanel := SHOW_PANEL cfg, mode := DEFAULT_MODE cfg\<rparr>;
     let m2 = m1\<lparr>master_size :=
                trunc (binary64 (of_int (if mode m1 = BSTACK then wh m1 else ww m1)
                                 * binary64 (MASTER_SIZE cfg)))\<rparr>;
     s2 \<leftarrow> setup_monitor_save cfg 0 (putCM m2 s1);
     change_desktop cfg (DEFAULT_DESKTOP cfg) s2 }"

text \<open>
  What the X server supplies at startup: the size of the screen, the rectangles
  (\<^verbatim>\<open>x_org\<close>, \<^verbatim>\<open>y_org\<close>, \<^verbatim>\<open>width\<close>, \<^verbatim>\<open>height\<close>) of the Xinerama screens, the root window,
  the pixels of the two border colours, the modifier of Num Lock and the interned atoms.
\<close>

record xserver =
  width_in_pixels :: int
  height_in_pixels :: int
  xinerama_screens :: "(int \<times> int \<times> int \<times> int) list"
  xroot :: window
  focus_pixel :: "32 word"
  unfocus_pixel :: "32 word"
  numlock :: "32 word"
  wm_atoms :: "nat \<Rightarrow> atom"
  net_atoms :: "nat \<Rightarrow> atom"

text \<open>The global variables as the program starts.\<close>

definition init_wm :: wm where
  "init_wm = \<lparr>running = True, retval = 0, current_monitor = 0, previous_monitor = 0,
     MONITORS = 1, numlockmask = 0, win_unfocus = 0, win_focus = 0, monitors = [],
     root = 0, wmatoms = (\<lambda>_. 0), netatoms = (\<lambda>_. 0), clients = (\<lambda>_. None), brk = 1,
     xreqs = [], out = []\<rparr>"

text \<open>The loop of \<^verbatim>\<open>setup\<close> over the Xinerama screens, from monitor \<open>i\<close> on.\<close>

fun setup_monitors :: "config \<Rightarrow> int \<Rightarrow> (int \<times> int \<times> int \<times> int) list \<Rightarrow> wm \<Rightarrow> wm option" where
  "setup_monitors cfg i [] s = Some s"
| "setup_monitors cfg i ((x, y, w, h) # rest) s = do {
     s1 \<leftarrow> setup_monitor cfg i x y w (h - (if SHOW_PANEL cfg then PANEL_HEIGHT cfg else 0)) s;
     setup_monitors cfg (i + 1) rest s1 }"

text \<open>
  The function \<^verbatim>\<open>setup\<close> of the source, for a startup in which no step fails. With
  Xinerama there is one monitor for every screen the server reports, without it (or with
  no screen reported) one monitor of the size of the screen. The key grabs of \<open>grabkeys\<close>
  and the event table are left out.
\<close>

definition wm_setup :: "config \<Rightarrow> xserver \<Rightarrow> wm \<Rightarrow> wm option" where
  "wm_setup cfg x s = do {
     let screens = (if XINERAMA cfg then xinerama_screens x else []);
     let s0 = s\<lparr>root := xroot x,
                 MONITORS := (if screens \<noteq> [] then int (length screens) else MONITORS s)\<rparr>;
     let s1 = s0\<lparr>monitors := replicate (nat (MONITORS s0)) zero_monitor\<rparr>;
     s2 \<leftarrow> (if screens \<noteq> [] then setup_monitors cfg 0 screens s1
             else setup_monitor cfg 0 0 0 (width_in_pixels x - BORDER_WIDTH cfg)
                    (height_in_pixels x - (if SHOW_PANEL cfg then PANEL_HEIGHT cfg else 0)
                       - BORDER_WIDTH cfg) s1);
     let s3 = s2\<lparr>win_focus := focus_pixel x, win_unfocus := unfocus_pixel x,
                 numlockmask := numlock x, wmatoms := wm_atoms x, netatoms := net_atoms x\<rparr>;
     let s4 = emit [ChangeProperty (root s3) (netatoms s3 NET_SUPPORTED)
                      (map (netatoms s3) [NET_SUPPORTED, NET_FULLSCREEN, NET_WM_STATE, NET_ACTIVE])] s3;
     s5 \<leftarrow> change_monitor cfg (DEFAULT_MONITOR cfg) s4;
     change_desktop cfg (DEFAULT_DESKTOP cfg) s5 }"

subsection \<open>Urgency hints\<close>

abbreviation (input) XCB_ICCCM_WM_ALL_HINTS :: "32 word" where "XCB_ICCCM_WM_ALL_HINTS \<equiv> 127"

text \<open>
  \<open>propertynotify\<close> with window and atom of the event; \<open>hints\<close> is the urgency flag of
  the \<^verbatim>\<open>WM_HINTS\<close> reply, or \<open>None\<close> when the reply fails.
\<close>

definition propertynotify :: "config \<Rightarrow> window \<Rightarrow> atom \<Rightarrow> bool option \<Rightarrow> wm \<Rightarrow> wm option" where
  "propertynotify cfg w a hints s = do {
     (c, s1) \<leftarrow> wintoclient cfg w s;
     case c of None \<Rightarrow> Some s1
     | Some r \<Rightarrow>
         if a \<noteq> XCB_ICCCM_WM_ALL_HINTS then Some s1
         else do {
           s2 \<leftarrow> (case hints of None \<Rightarrow> Some s1
                   | Some urgent \<Rightarrow> upd_client r (\<lambda>cl. cl\<lparr>isurgent := urgent\<rparr>) s1);
           desktopinfo cfg s2 } }"

subsection \<open>Evaluation\<close>

text \<open>The recursion equations of the loops over the heap, for evaluation.\<close>

declare for_clients.simps [code]
declare wintoclient_scan.simps [code]
declare prev_client_loop.simps [code]
declare stack_skip.simps [code]
declare focusurgent_clients.simps [code]
declare focusurgent_monitors.simps [code]
declare desktopinfo_monitors.simps [code]
declare removeclient_scan.simps [code]


section \<open>Client lists as lists\<close>

text \<open>
  \<open>cpath h p rs q\<close>: in the heap \<open>h\<close> the cells at the addresses \<open>rs\<close> are linked by
  their \<^verbatim>\<open>next\<close> fields, from the pointer \<open>p\<close> up to the pointer \<open>q\<close>. A client list is
  such a path that ends in \<^verbatim>\<open>NULL\<close>.
\<close>

fun cpath :: "heap \<Rightarrow> ref option \<Rightarrow> ref list \<Rightarrow> ref option \<Rightarrow> bool" where
  "cpath h p [] q \<longleftrightarrow> p = q"
| "cpath h p (r # rs) q \<longleftrightarrow>
     p = Some r \<and> (case h r of None \<Rightarrow> False | Some c \<Rightarrow> cpath h (nxt c) rs q)"

definition clist :: "heap \<Rightarrow> ref option \<Rightarrow> ref list \<Rightarrow> bool" where
  "clist h p xs \<longleftrightarrow> cpath h p xs None"

text \<open>The loop \<open>for_clients\<close> over the addresses of a list.\<close>

fun fold_clients :: "(ref \<Rightarrow> client \<Rightarrow> 'a \<Rightarrow> 'a option) \<Rightarrow> heap \<Rightarrow> ref list \<Rightarrow> 'a \<Rightarrow> 'a option" where
  "fold_clients body h [] a = Some a"
| "fold_clients body h (r # rs) a = do { c \<leftarrow> h r; a' \<leftarrow> body r c a; fold_clients body h rs a' }"

text \<open>The border widths among the requests \<open>rs\<close>, each with its window, in order.\<close>

fun border_widths :: "xreq list \<Rightarrow> (window \<times> int) list" where
  "border_widths [] = []"
| "border_widths (BorderWidth w b # rs) = (w, b) # border_widths rs"
| "border_widths (r # rs) = border_widths rs"

text \<open>
  Lists in place of the loops of \<open>prev_client\<close> and \<open>move_up\<close>: \<open>list_prev c p rest\<close>
  is the element before \<open>c\<close> in \<open>p # rest\<close>, or the last element when \<open>c\<close> is not in
  \<open>rest\<close>; \<open>list_pp p xs\<close> is the element before \<open>p\<close> in \<open>xs\<close>, if there is one.
  \<open>list_move_down c xs\<close> swaps \<open>c\<close> with its successor, or moves it to the front when
  it is the last element; \<open>list_move_up c xs\<close> swaps \<open>c\<close> with its predecessor, or moves
  it to the end when it is the first element. \<open>strip h\<close> is the heap \<open>h\<close> with the \<^verbatim>\<open>next\<close>
  fields cleared: two heaps with the same \<open>strip\<close> differ in their links only.
\<close>

fun list_prev :: "ref \<Rightarrow> ref \<Rightarrow> ref list \<Rightarrow> ref" where
  "list_prev c p [] = p"
| "list_prev c p (q # rest) = (if q = c then p else list_prev c q rest)"






definition strip :: "heap \<Rightarrow> heap" where
  "strip h = (\<lambda>r. map_option (\<lambda>c. c\<lparr>nxt := None\<rparr>) (h r))"

text \<open>
  The requests of \<open>update_current_client\<close> for one client, when \<open>single\<close> tells whether
  the head of the list has no successor.
\<close>

definition pass_body :: "config \<Rightarrow> wm \<Rightarrow> monitor \<Rightarrow> bool \<Rightarrow> ref \<Rightarrow> client \<Rightarrow> xreq list" where
  "pass_body cfg s m single r c =
     [BorderWidth (win c)
        (if single \<or> isfullscrn c
            \<or> (mode m = MONOCLE \<and> (\<not> isfloating c \<and> \<not> istransient c))
         then 0 else BORDER_WIDTH cfg),
      BorderPixel (win c) (if current m = Some r then win_focus s else win_unfocus s)]
     @ (if CLICK_TO_FOCUS cfg
        then [GrabButton (win c) XCB_BUTTON_INDEX_1 XCB_BUTTON_MASK_ANY] else [])
     @ (if isfloating c \<or> istransient c then [] else [RaiseWindow (win c)])"

text \<open>
  The clients of a list that the layouts place, and the condition under which the layout
  of a tiling pass is defined for the list \<open>xs\<close> of the current desktop: a list of at
  most one client is laid out by \<open>monocle\<close>; otherwise the mode selects the layout, and
  \<open>grid\<close> divides by the number of columns, which is zero when no client is placed.
\<close>

definition tileable :: "heap \<Rightarrow> ref list \<Rightarrow> ref list" where
  "tileable h xs = filter (\<lambda>r. case h r of None \<Rightarrow> False | Some c \<Rightarrow> \<not> ISFFT c) xs"

definition layout_ok :: "monitor \<Rightarrow> heap \<Rightarrow> ref list \<Rightarrow> bool" where
  "layout_ok m h xs \<longleftrightarrow>
     length xs \<le> 1 \<or> mode m = TILE \<or> mode m = MONOCLE \<or> mode m = BSTACK
     \<or> (mode m = GRID \<and> tileable h xs \<noteq> [])"

subsection \<open>The desktops of a monitor\<close>

text \<open>
  The fields of a monitor that \<open>save_desktop\<close> copies into the table are its live desktop;
  \<open>switch_to i m\<close> is the monitor after \<open>select_desktop i\<close>, and \<open>dview m d\<close> is desktop \<open>d\<close>
  as the next \<open>select_desktop d\<close> will load it. \<open>scan_list\<close> is the scan of \<open>removeclient\<close>
  over one list.
\<close>

definition live :: "monitor \<Rightarrow> desktop" where
  "live m = \<lparr>desktop.master_size = master_size m, desktop.mode = mode m,
     desktop.growth = growth m, desktop.head = head m, desktop.current = current m,
     desktop.prevfocus = prevfocus m, desktop.showpanel = showpanel m\<rparr>"

definition switch_to :: "int \<Rightarrow> monitor \<Rightarrow> monitor" where
  "switch_to i m =
     (let ds = (desktops m)[nat (current_desktop m) := live m]; d = ds ! nat i
      in m\<lparr>desktops := ds, master_size := desktop.master_size d, mode := desktop.mode d,
           growth := desktop.growth d, head := desktop.head d, current := desktop.current d,
           showpanel := desktop.showpanel d, prevfocus := desktop.prevfocus d,
           current_desktop := i\<rparr>)"

definition dview :: "monitor \<Rightarrow> nat \<Rightarrow> desktop" where
  "dview m d = (if int d = current_desktop m then live m else desktops m ! d)"

definition wf_monitor :: "config \<Rightarrow> monitor \<Rightarrow> bool" where
  "wf_monitor cfg m \<longleftrightarrow>
     0 \<le> current_desktop m \<and> current_desktop m < DESKTOPS cfg
     \<and> length (desktops m) = nat (DESKTOPS cfg)"

fun scan_list :: "ref \<Rightarrow> loc \<Rightarrow> bool \<Rightarrow> ref list \<Rightarrow> loc \<times> bool" where
  "scan_list c p found [] = (p, found)"
| "scan_list c p found (q # qs) = (if q = c then (p, True) else scan_list c (NextLoc q) False qs)"

section \<open>Scenarios\<close>

text \<open>
  The configuration of scenario S1: a screen of 1600 by 900 pixels, a panel of 20 pixels
  at the top, a border of 2 pixels, a master fraction of 0.52, four desktops, no rules,
  and new windows attached at the end of the list.
\<close>

definition S1_config :: config where
  "S1_config = \<lparr>DESKTOPS = 4, DEFAULT_DESKTOP = 0, DEFAULT_MONITOR = 0, DEFAULT_MODE = TILE,
     MASTER_SIZE = 52 / 100, SHOW_PANEL = True, TOP_PANEL = True, PANEL_HEIGHT = 20,
     BORDER_WIDTH = 2, MINWSZ = 50, ATTACH_ASIDE = True, FOLLOW_MOUSE = True,
     FOLLOW_MONITOR = True, FOLLOW_WINDOW = False, CLICK_TO_FOCUS = True, XINERAMA = False,
     buttons = [], rules = []\<rparr>"

definition S1_server :: xserver where
  "S1_server = \<lparr>width_in_pixels = 1600, height_in_pixels = 900, xinerama_screens = [],
     xroot = 1, focus_pixel = 255, unfocus_pixel = 128, numlock = 16,
     wm_atoms = (\<lambda>i. of_nat (100 + i)), net_atoms = (\<lambda>i. of_nat (200 + i))\<rparr>"

text \<open>A map request for a plain window: not override-redirect, no class, not transient.\<close>

definition S1_map :: "window \<Rightarrow> map_request" where
  "S1_map w = \<lparr>mr_window = w, mr_attr = Some False, mr_class = None, mr_transient = 0,
     mr_state = None\<rparr>"

text \<open>Startup, then the windows 11, 12 and 13 (W1, W2, W3) are mapped in this order.\<close>

definition S1_run :: "wm option" where
  "S1_run = do {
     s0 \<leftarrow> wm_setup S1_config S1_server init_wm;
     s1 \<leftarrow> maprequest S1_config (S1_map 11) s0;
     s2 \<leftarrow> maprequest S1_config (S1_map 12) s1;
     maprequest S1_config (S1_map 13) s2 }"

text \<open>The requests that a tiling pass sends in state \<open>s\<close>.\<close>

definition tile_requests :: "config \<Rightarrow> wm \<Rightarrow> xreq list option" where
  "tile_requests cfg s = map_option (\<lambda>s'. drop (length (xreqs s)) (xreqs s')) (tile cfg s)"

text \<open>The geometry a window was given last, among the requests \<open>rs\<close>.\<close>

fun geometry :: "window \<Rightarrow> xreq list \<Rightarrow> (int \<times> int \<times> int \<times> int) option" where
  "geometry w [] = None"
| "geometry w (MoveResize w' x y a b # rs) =
     (case geometry w rs of Some g \<Rightarrow> Some g
      | None \<Rightarrow> if w' = w then Some (x, y, a, b) else None)"
| "geometry w (r # rs) = geometry w rs"

text \<open>
  Two monitors side by side: the build has Xinerama and the server reports two screens of
  1600 by 900 pixels.
\<close>

definition M2_config :: config where
  "M2_config = S1_config\<lparr>XINERAMA := True\<rparr>"

definition M2_server :: xserver where
  "M2_server = S1_server\<lparr>width_in_pixels := 3200,
     xinerama_screens := [(0, 0, 1600, 900), (1600, 0, 1600, 900)]\<rparr>"

definition M2_start :: "wm option" where
  "M2_start = wm_setup M2_config M2_server init_wm"

text \<open>Window 11 is mapped on monitor 1; then monitor 0 becomes the current one again.\<close>

definition M2_other :: "wm option" where
  "M2_other = do {
     s0 \<leftarrow> M2_start;
     s1 \<leftarrow> change_monitor M2_config 1 s0;
     s2 \<leftarrow> maprequest M2_config (S1_map 11) s1;
     change_monitor M2_config 0 s2 }"

text \<open>The same, but window 11 sets its urgency hint while monitor 1 is still current.\<close>

definition M2_urgent :: "wm option" where
  "M2_urgent = do {
     s0 \<leftarrow> M2_start;
     s1 \<leftarrow> change_monitor M2_config 1 s0;
     s2 \<leftarrow> maprequest M2_config (S1_map 11) s1;
     s3 \<leftarrow> propertynotify M2_config 11 XCB_ICCCM_WM_ALL_HINTS (Some True) s2;
     change_monitor M2_config 0 s3 }"

text \<open>
  Monitor 0 is current and shows desktop 1, monitor 1 shows desktop 0: the state in which
  \<open>change_desktop\<close> to desktop 1, called right after startup, calls \<open>desktopinfo\<close>.
\<close>

definition M2_desktop1 :: "wm option" where
  "M2_desktop1 = do { s0 \<leftarrow> M2_start; select_desktop M2_config 1 s0 }"

text \<open>
  An example state for one monitor: the clients at the addresses 1, 2 and 3, with the
  windows 11, 12 and 13, are the list of desktop 0; the second one has the focus and the
  first one had it before.
\<close>

definition ex_client :: "ref option \<Rightarrow> window \<Rightarrow> client" where
  "ex_client n w = \<lparr>nxt = n, monitor = 0, isurgent = False, istransient = False,
     isfullscrn = False, isfloating = False, win = w\<rparr>"

definition ex_clients :: heap where
  "ex_clients = (\<lambda>r. if r = 1 then Some (ex_client (Some 2) 11)
                     else if r = 2 then Some (ex_client (Some 3) 12)
                     else if r = 3 then Some (ex_client None 13) else None)"

definition ex_desktop :: desktop where
  "ex_desktop = \<lparr>desktop.master_size = 830, desktop.mode = TILE, desktop.growth = 0,
     desktop.head = None, desktop.current = None, desktop.prevfocus = None,
     desktop.showpanel = True\<rparr>"

definition ex_monitor :: monitor where
  "ex_monitor = \<lparr>showpanel = True, current_desktop = 0, previous_desktop = 0, growth = 0,
     mode = TILE, master_size = 830, wh = 878, ww = 1598, wx = 0, wy = 0, head = Some 1,
     prevfocus = Some 1, current = Some 2, desktops = replicate 4 ex_desktop\<rparr>"

definition ex_state :: wm where
  "ex_state = \<lparr>running = True, retval = 0, current_monitor = 0, previous_monitor = 0,
     MONITORS = 1, numlockmask = 16, win_unfocus = 128, win_focus = 255,
     monitors = [ex_monitor], root = 1, wmatoms = (\<lambda>i. of_nat (100 + i)),
     netatoms = (\<lambda>i. of_nat (200 + i)), clients = ex_clients, brk = 4, xreqs = [], out = []\<rparr>"

text \<open>The same state in mode \<open>MONOCLE\<close>.\<close>

definition ex_monocle :: wm where
  "ex_monocle = ex_state\<lparr>monitors := [ex_monitor\<lparr>mode := MONOCLE\<rparr>]\<rparr>"




text \<open>
  Mode \<open>GRID\<close> with the first client tiled and focused, the other two floating, the third
  one focused before.
\<close>

definition ex_floating :: wm where
  "ex_floating = ex_state\<lparr>
     monitors := [ex_monitor\<lparr>mode := GRID, current := Some 1, prevfocus := Some 3\<rparr>],
     clients := (\<lambda>r. if r = 1 then Some (ex_client (Some 2) 11)
                      else if r = 2 then Some ((ex_client (Some 3) 12)\<lparr>isfloating := True\<rparr>)
                      else if r = 3 then Some ((ex_client None 13)\<lparr>isfloating := True\<rparr>)
                      else None)\<rparr>"


section \<open>Properties\<close>

subsection \<open>Frame of a tiling pass\<close>

lemma emit_nil: "emit [] s = s"
  by (simp add: emit_def)

lemma tile_frame: "tile cfg s = Some s' \<Longrightarrow> \<exists>rs. s' = emit rs s"
  unfolding tile_def
  by (auto split: option.splits bind_splits intro: exI[of _ "[]"] simp: emit_nil)


subsection \<open>Window lookup across monitors\<close>

text \<open>
  Claim C1. \<open>wintoclient\<close> is to search every desktop of every monitor and to find the
  clients of a monitor other than the current one. It searches the desktops of the current
  monitor only: with window 11 managed on monitor 1 and monitor 0 current, the lookup of
  window 11 returns \<^verbatim>\<open>NULL\<close>, while the list of monitor 1 holds the client of window 11.
\<close>

theorem wintoclient_other_monitor:
  "Option.bind M2_other
     (\<lambda>s. map_option
        (\<lambda>(c, s'). (current_monitor s, map (\<lambda>m. map_option win (deref (clients s) (head m))) (monitors s), c))
        (wintoclient M2_config 11 s))
   = Some (0, [None, Some 11], None)"
  by code_simp


subsection \<open>Focus reachability\<close>

text \<open>
  Claim C2. The focused client is to be a node of the list of the current desktop of the
  current monitor after every operation, \<open>focusurgent\<close> included. \<open>focusurgent\<close> walks
  the lists of all monitors but focuses on the current one: with the urgent client of
  window 11 on monitor 1 and monitor 0 current, it leaves monitor 0 with an empty list
  and the client at address 1, a node of the list of monitor 1, as its focused client.
\<close>

theorem focusurgent_breaks_reachability:
  "Option.bind M2_urgent
     (\<lambda>s. map_option
        (\<lambda>s'. (current_monitor s', map (\<lambda>m. (head m, current m)) (monitors s')))
        (focusurgent M2_config s))
   = Some (0, [(None, Some 1), (Some 1, Some 1)])"
  by code_simp


subsection \<open>Scenario S1\<close>

text \<open>
  Claim C3, as amended. After startup on a screen of 1600 by 900 pixels and the map
  requests of the windows W1, W2, W3 (11, 12, 13), a tiling pass sends exactly the
  geometries W1 = (0, 20, 828, 874), W2 = (830, 20, 764, 435), W3 = (830, 457, 764, 437),
  and these are the geometries the three windows were given last.
\<close>

theorem S1_geometries:
  "Option.bind S1_run (tile_requests S1_config)
     = Some [MoveResize 11 0 20 828 874, MoveResize 12 830 20 764 435,
             MoveResize 13 830 457 764 437]
   \<and> map_option (\<lambda>s. map (\<lambda>w. geometry w (xreqs s)) [11, 12, 13]) S1_run
     = Some [Some (0, 20, 828, 874), Some (830, 20, 764, 435), Some (830, 457, 764, 437)]"
  by code_simp


text \<open>
  Claim C3, as stated, fails: the tiling pass does not send the geometries
  W2 = (832, 20, 764, 434) and W3 = (832, 456, 764, 438).
\<close>

theorem S1_geometries_counterexample:
  "Option.bind S1_run (tile_requests S1_config)
     \<noteq> Some [MoveResize 11 0 20 828 874, MoveResize 12 832 20 764 434,
             MoveResize 13 832 456 764 438]"
  by code_simp


subsection \<open>Columns and rows of the grid\<close>

lemma grid_cols_inv:
  assumes "0 \<le> c" "c \<le> n sdiv 2 + 1" "\<forall>k. 0 \<le> k \<and> k < c \<longrightarrow> k * k < n"
  shows "c \<le> grid_cols n c \<and> grid_cols n c \<le> n sdiv 2 + 1
       \<and> (\<forall>k. 0 \<le> k \<and> k < grid_cols n c \<longrightarrow> k * k < n)
       \<and> (grid_cols n c \<le> n sdiv 2 \<longrightarrow> n \<le> grid_cols n c * grid_cols n c)"
  using assms
proof (induction n c rule: grid_cols.induct)
  case (1 n cols)
  show ?case
  proof (cases "cols \<le> n sdiv 2 \<and> \<not> cols * cols \<ge> n")
    case True
    have "\<forall>k. 0 \<le> k \<and> k < cols + 1 \<longrightarrow> k * k < n"
    proof (intro allI impI)
      fix k assume "0 \<le> k \<and> k < cols + 1"
      then have "k < cols \<or> k = cols" by linarith
      then show "k * k < n" using "1.prems"(3) True \<open>0 \<le> k \<and> k < cols + 1\<close> by auto
    qed
    then have "cols + 1 \<le> grid_cols n (cols + 1) \<and> grid_cols n (cols + 1) \<le> n sdiv 2 + 1
       \<and> (\<forall>k. 0 \<le> k \<and> k < grid_cols n (cols + 1) \<longrightarrow> k * k < n)
       \<and> (grid_cols n (cols + 1) \<le> n sdiv 2 \<longrightarrow> n \<le> grid_cols n (cols + 1) * grid_cols n (cols + 1))"
      using "1.IH"[of] True "1.prems" by auto
    moreover have "grid_cols n cols = grid_cols n (cols + 1)"
      using True by (subst grid_cols.simps) simp
    ultimately show ?thesis by auto
  next
    case False
    then have "grid_cols n cols = cols" by (subst grid_cols.simps) auto
    then show ?thesis using False "1.prems" by auto
  qed
qed


lemma grid_cols_least:
  assumes "1 \<le> n"
  shows "0 \<le> grid_cols n 0 \<and> n \<le> grid_cols n 0 * grid_cols n 0
       \<and> (\<forall>k. 0 \<le> k \<and> n \<le> k * k \<longrightarrow> grid_cols n 0 \<le> k)"
proof -
  have h: "0 \<le> n sdiv 2" "n \<le> 2 * (n sdiv 2) + 1"
    using assms by (auto simp: signed_divide_int_def sgn_if)
  have inv: "0 \<le> grid_cols n 0 \<and> grid_cols n 0 \<le> n sdiv 2 + 1
       \<and> (\<forall>k. 0 \<le> k \<and> k < grid_cols n 0 \<longrightarrow> k * k < n)
       \<and> (grid_cols n 0 \<le> n sdiv 2 \<longrightarrow> n \<le> grid_cols n 0 * grid_cols n 0)"
    using grid_cols_inv[of 0 n] h by auto
  have sq: "n \<le> grid_cols n 0 * grid_cols n 0"
  proof (cases "grid_cols n 0 \<le> n sdiv 2")
    case True
    then show ?thesis using inv by blast
  next
    case False
    then have e: "grid_cols n 0 = n sdiv 2 + 1" using inv by linarith
    have "n \<le> 2 * (n sdiv 2) + 1" by (rule h)
    also have "\<dots> \<le> (n sdiv 2 + 1) * (n sdiv 2 + 1)"
      using h(1) by (simp add: algebra_simps)
    finally show ?thesis by (simp add: e)
  qed
  have least: "\<forall>k. 0 \<le> k \<and> n \<le> k * k \<longrightarrow> grid_cols n 0 \<le> k"
    using inv by (meson not_le)
  show ?thesis using inv sq least by blast
qed






subsection \<open>Resizing the master area\<close>

text \<open>
  Claim C8. \<open>resize_master\<close> leaves the whole state as it is when the new master size
  is at most \<open>MINWSZ\<close> or leaves at most \<open>MINWSZ\<close> of the primary axis (the working
  height in mode \<open>BSTACK\<close>, the working width otherwise); otherwise it stores the new
  master size and tiles, which changes nothing else but the requests sent.
\<close>

theorem resize_master_spec:
  assumes "getCM s = Some m"
  shows "(master_size m + i \<le> MINWSZ cfg
            \<or> (if mode m = BSTACK then wh m else ww m) - (master_size m + i) \<le> MINWSZ cfg
          \<longrightarrow> resize_master cfg i s = Some s)
       \<and> (\<not> (master_size m + i \<le> MINWSZ cfg
              \<or> (if mode m = BSTACK then wh m else ww m) - (master_size m + i) \<le> MINWSZ cfg)
          \<longrightarrow> resize_master cfg i s = tile cfg (putCM (m\<lparr>master_size := master_size m + i\<rparr>) s)
            \<and> (\<forall>s'. resize_master cfg i s = Some s'
                 \<longrightarrow> (\<exists>rs. s' = emit rs (putCM (m\<lparr>master_size := master_size m + i\<rparr>) s))))"
  using assms by (auto simp: resize_master_def Let_def dest: tile_frame)


theorem resize_master_spec_witness:
  "getCM ex_state = Some ex_monitor
   \<and> resize_master S1_config 1000 ex_state = Some ex_state
   \<and> resize_master S1_config (- 800) ex_state = Some ex_state
   \<and> map_option xreqs (resize_master S1_config 10 ex_state)
       = Some [MoveResize 11 0 20 838 874, MoveResize 12 840 20 754 435,
               MoveResize 13 840 457 754 437]
   \<and> Option.bind (resize_master S1_config 10 ex_state) (\<lambda>s. map_option master_size (getCM s))
       = Some 840"
proof -
  have g: "getCM ex_state = Some ex_monitor"
    by (simp add: getCM_def ex_state_def)
  have r1: "resize_master S1_config 1000 ex_state = Some ex_state"
    using resize_master_spec[OF g, of 1000 S1_config]
    by (simp add: ex_monitor_def S1_config_def)
  have r2: "resize_master S1_config (- 800) ex_state = Some ex_state"
    using resize_master_spec[OF g, of "- 800" S1_config]
    by (simp add: ex_monitor_def S1_config_def)
  have r3: "resize_master S1_config 10 ex_state
      = tile S1_config (putCM (ex_monitor\<lparr>master_size := master_size ex_monitor + 10\<rparr>) ex_state)"
    using resize_master_spec[OF g, of 10 S1_config]
    by (simp add: ex_monitor_def S1_config_def)
  have e1: "map_option xreqs (tile S1_config (putCM (ex_monitor\<lparr>master_size := master_size ex_monitor + 10\<rparr>) ex_state))
       = Some [MoveResize 11 0 20 838 874, MoveResize 12 840 20 754 435,
               MoveResize 13 840 457 754 437]"
    by code_simp
  have e2: "Option.bind (tile S1_config (putCM (ex_monitor\<lparr>master_size := master_size ex_monitor + 10\<rparr>) ex_state))
       (\<lambda>s. map_option master_size (getCM s)) = Some 840"
    by code_simp
  show ?thesis using g r1 r2 e1 e2 by (simp add: r3)
qed


subsection \<open>Points outside every monitor\<close>

lemma areatomonitor_from_none:
  assumes "MONITORS s \<le> int (length (monitors s))" "0 \<le> m"
    and "\<forall>k. m \<le> k \<and> k < MONITORS s \<longrightarrow>
           \<not> (wx (monitors s ! nat k) < x \<and> wx (monitors s ! nat k) + ww (monitors s ! nat k) > x \<and>
              wy (monitors s ! nat k) < y \<and> wy (monitors s ! nat k) + wh (monitors s ! nat k) > y)"
  shows "areatomonitor_from s x y m = Some None"
  using assms
proof (induction s x y m rule: areatomonitor_from.induct)
  case (1 s x y m)
  show ?case
  proof (cases "m < MONITORS s")
    case False
    then show ?thesis by (simp add: areatomonitor_from.simps[of s x y m])
  next
    case True
    with "1.prems" have len: "nat m < length (monitors s)" by linarith
    from "1.prems" True have out: "\<not> (wx (monitors s ! nat m) < x \<and> wx (monitors s ! nat m) + ww (monitors s ! nat m) > x \<and>
              wy (monitors s ! nat m) < y \<and> wy (monitors s ! nat m) + wh (monitors s ! nat m) > y)"
      by (metis order_refl)
    have "areatomonitor_from s x y (m + 1) = Some None"
      using "1.IH"[OF True _ refl] "1.prems" len out by auto
    then show ?thesis
      using True len out "1.prems"(2) by (subst areatomonitor_from.simps) (simp add: Let_def)
  qed
qed


text \<open>
  Claim C9. For a point that is strictly inside no monitor's working rectangle,
  \<open>areatomonitor\<close> returns the current monitor; so \<open>motionnotify\<close> with that point
  changes nothing, and a move of the dragged window to that point sends the move request
  and migrates nothing.
\<close>

theorem areatomonitor_outside:
  assumes "MONITORS s \<le> int (length (monitors s))"
    and "\<forall>mo \<in> set (take (nat (MONITORS s)) (monitors s)).
           \<not> (wx mo < x \<and> x < wx mo + ww mo \<and> wy mo < y \<and> y < wy mo + wh mo)"
  shows "areatomonitor s x y = Some (current_monitor s)
       \<and> motionnotify cfg x y s = Some s
       \<and> (\<forall>m c cc winx winy winw winh mx my root_x root_y.
            getCM s = Some m \<and> current m = Some c \<and> clients s c = Some cc
            \<and> winx + root_x - mx = x \<and> winy + root_y - my = y
            \<longrightarrow> mousemotion_motion cfg MOVE (winx, winy, winw, winh) (mx, my) (root_x, root_y) s
                = Some (emit [Move (win cc) x y] s))"
proof -
  have out: "\<forall>k. 0 \<le> k \<and> k < MONITORS s \<longrightarrow>
           \<not> (wx (monitors s ! nat k) < x \<and> wx (monitors s ! nat k) + ww (monitors s ! nat k) > x \<and>
              wy (monitors s ! nat k) < y \<and> wy (monitors s ! nat k) + wh (monitors s ! nat k) > y)"
  proof (intro allI impI)
    fix k assume k: "0 \<le> k \<and> k < MONITORS s"
    then have "nat k < nat (MONITORS s)" "nat k < length (monitors s)" using assms(1) by auto
    then have "monitors s ! nat k \<in> set (take (nat (MONITORS s)) (monitors s))"
      by (metis in_set_conv_nth length_take min_less_iff_conj nth_take)
    with assms(2) show "\<not> (wx (monitors s ! nat k) < x \<and> wx (monitors s ! nat k) + ww (monitors s ! nat k) > x \<and>
              wy (monitors s ! nat k) < y \<and> wy (monitors s ! nat k) + wh (monitors s ! nat k) > y)"
      by blast
  qed
  have a: "areatomonitor s x y = Some (current_monitor s)"
    using areatomonitor_from_none[OF assms(1) _ out] by (simp add: areatomonitor_def)
  have frame: "areatomonitor (emit rs s) x y = areatomonitor s x y" for rs
  proof -
    have "MONITORS (emit rs s) \<le> int (length (monitors (emit rs s)))"
      using assms(1) by (simp add: emit_def)
    moreover have "\<forall>k. 0 \<le> k \<and> k < MONITORS (emit rs s) \<longrightarrow>
           \<not> (wx (monitors (emit rs s) ! nat k) < x \<and> wx (monitors (emit rs s) ! nat k) + ww (monitors (emit rs s) ! nat k) > x \<and>
              wy (monitors (emit rs s) ! nat k) < y \<and> wy (monitors (emit rs s) ! nat k) + wh (monitors (emit rs s) ! nat k) > y)"
      using out by (simp add: emit_def)
    ultimately have "areatomonitor_from (emit rs s) x y 0 = Some None"
      by (intro areatomonitor_from_none) auto
    then show ?thesis using a by (simp add: areatomonitor_def emit_def)
  qed
  show ?thesis
    using a frame by (auto simp: motionnotify_def mousemotion_motion_def Let_def deref_def emit_def)
qed


theorem areatomonitor_outside_witness:
  "MONITORS ex_state \<le> int (length (monitors ex_state))
   \<and> map wx (take (nat (MONITORS ex_state)) (monitors ex_state)) = [0]
   \<and> getCM ex_state = Some ex_monitor \<and> current ex_monitor = Some 2
   \<and> clients ex_state 2 = Some (ex_client (Some 3) 12)
   \<and> areatomonitor ex_state 0 100 = Some 0
   \<and> motionnotify S1_config 0 100 ex_state = Some ex_state
   \<and> mousemotion_motion S1_config MOVE (5, 40, 300, 200) (25, 60) (20, 120) ex_state
       = Some (emit [Move 12 0 100] ex_state)"
proof -
  have h1: "MONITORS ex_state \<le> int (length (monitors ex_state))"
    by (simp add: ex_state_def)
  have h2: "\<forall>mo \<in> set (take (nat (MONITORS ex_state)) (monitors ex_state)).
              \<not> (wx mo < 0 \<and> 0 < wx mo + ww mo \<and> wy mo < 100 \<and> 100 < wy mo + wh mo)"
    by (simp add: ex_state_def ex_monitor_def)
  have g: "getCM ex_state = Some ex_monitor" "current ex_monitor = Some 2"
    "clients ex_state 2 = Some (ex_client (Some 3) 12)"
    by (simp_all add: getCM_def ex_state_def ex_monitor_def ex_clients_def)
  have w: "win (ex_client (Some 3) 12) = 12" "current_monitor ex_state = 0"
    by (simp_all add: ex_client_def ex_state_def)
  note t = areatomonitor_outside[OF h1 h2, of S1_config]
  from t have a: "\<And>m c cc winx winy winw winh mx my root_x root_y.
      getCM ex_state = Some m \<Longrightarrow> current m = Some c \<Longrightarrow> clients ex_state c = Some cc
      \<Longrightarrow> winx + root_x - mx = 0 \<Longrightarrow> winy + root_y - my = 100
      \<Longrightarrow> mousemotion_motion S1_config MOVE (winx, winy, winw, winh) (mx, my) (root_x, root_y)
            ex_state = Some (emit [Move (win cc) 0 100] ex_state)"
    by blast
  have m: "mousemotion_motion S1_config MOVE (5, 40, 300, 200) (25, 60) (20, 120) ex_state
       = Some (emit [Move 12 0 100] ex_state)"
    using a[OF g, where winx = 5 and root_x = 20 and mx = 25 and winy = 40 and root_y = 120
               and my = 60 and winw = 300 and winh = 200] w
    by simp
  have h3: "map wx (take (nat (MONITORS ex_state)) (monitors ex_state)) = [0]"
    by (simp add: ex_state_def ex_monitor_def)
  show ?thesis
    using t h1 h3 g w m by simp
qed

subsection \<open>The status line\<close>

text \<open>
  Claim C10. \<open>desktopinfo\<close> is to leave the current monitor and the current desktop of
  every monitor as they are. With two monitors it does not: when monitor 0 is current and
  shows desktop 1 while monitor 1 shows desktop 0, it returns with monitor 0 on desktop 0.
  This is the call at the end of \<open>change_desktop\<close>, so a change to desktop 1 right after
  startup ends with monitor 0 on desktop 0.
\<close>

theorem desktopinfo_changes_desktop:
  "Option.bind M2_desktop1
     (\<lambda>s. map_option
        (\<lambda>s'. ((current_monitor s, map current_desktop (monitors s)),
               (current_monitor s', map current_desktop (monitors s'))))
        (desktopinfo M2_config s))
   = Some ((0, [1, 0]), (0, [0, 0]))
   \<and> Option.bind M2_start
     (\<lambda>s. map_option (\<lambda>s'. map current_desktop (monitors s')) (change_desktop M2_config 1 s))
   = Some [0, 0]"
  by code_simp



subsection \<open>Client lists\<close>

lemma clist_Nil [simp]: "clist h p [] \<longleftrightarrow> p = None"
  by (simp add: clist_def)

lemma clist_Cons [simp]:
  "clist h p (r # rs) \<longleftrightarrow> p = Some r \<and> (\<exists>c. h r = Some c \<and> clist h (nxt c) rs)"
  by (auto simp: clist_def split: option.splits)

lemma clist_None [simp]: "clist h None xs \<longleftrightarrow> xs = []"
  by (cases xs) auto

lemma for_clients_clist:
  "clist h p xs \<Longrightarrow> for_clients body h p a = fold_clients body h xs a"
proof (induction xs arbitrary: p a)
  case Nil
  then show ?case by (simp add: for_clients.simps)
next
  case (Cons r rs)
  then obtain c where c: "p = Some r" "h r = Some c" "clist h (nxt c) rs" by auto
  show ?case
  proof (cases "body r c a")
    case None
    then show ?thesis using c by (subst for_clients.simps) simp
  next
    case (Some a')
    then show ?thesis using c Cons.IH[OF c(3), of a'] by (subst for_clients.simps) simp
  qed
qed

lemma clist_alloc: "clist h p xs \<Longrightarrow> r \<in> set xs \<Longrightarrow> \<exists>c. h r = Some c"
  by (induction xs arbitrary: p) auto

lemma border_widths_append: "border_widths (xs @ ys) = border_widths xs @ border_widths ys"
  by (induction xs rule: border_widths.induct) auto

lemma fold_clients_append:
  assumes "\<forall>r \<in> set ys. h r \<noteq> None"
    and "\<And>r c a. r \<in> set ys \<Longrightarrow> h r = Some c \<Longrightarrow> body r c a = Some (a @ g r c)"
  shows "fold_clients body h ys acc = Some (acc @ concat (map (\<lambda>r. g r (the (h r))) ys))"
  using assms
proof (induction ys arbitrary: acc)
  case Nil
  then show ?case by simp
next
  case (Cons r rs)
  then obtain c where c: "h r = Some c" by auto
  have b: "body r c acc = Some (acc @ g r c)" using Cons.prems(2)[of r c acc] c by simp
  have "fold_clients body h rs (acc @ g r c)
      = Some ((acc @ g r c) @ concat (map (\<lambda>r. g r (the (h r))) rs))"
    using Cons.prems by (intro Cons.IH) auto
  then show ?case using c b by simp
qed


subsection \<open>Border widths\<close>

lemma border_widths_pass:
  "border_widths (concat (map (\<lambda>r. pass_body cfg s m single r (f r)) ys))
     = map (\<lambda>r. (win (f r),
          if single \<or> isfullscrn (f r)
              \<or> (mode m = MONOCLE \<and> (\<not> isfloating (f r) \<and> \<not> istransient (f r)))
          then 0 else BORDER_WIDTH cfg)) ys"
  by (induction ys) (auto simp: pass_body_def border_widths_append)

lemma update_current_pass_eq:
  assumes "getCM s = Some m" "clist (clients s) (head m) xs"
  shows "update_current_pass cfg s
     = Some (concat (map (\<lambda>r. pass_body cfg s m (length xs = 1) r (the (clients s r))) xs))"
proof -
  have al: "\<forall>r \<in> set xs. clients s r \<noteq> None"
    using clist_alloc[OF assms(2)] by auto
  have body: "update_current_client cfg s m r c = Some (pass_body cfg s m (length xs = 1) r c)"
    if "r \<in> set xs" for r c
  proof -
    from that obtain x rest where x: "xs = x # rest" by (cases xs) auto
    then obtain hc where hc: "head m = Some x" "clients s x = Some hc" "clist (clients s) (nxt hc) rest"
      using assms(2) by auto
    have "nxt hc = None \<longleftrightarrow> length xs = 1" using hc(3) x by (cases rest) auto
    then show ?thesis using hc by (simp add: update_current_client_def pass_body_def deref_def)
  qed
  have "update_current_pass cfg s
      = for_clients (\<lambda>r c rs. do { q \<leftarrow> update_current_client cfg s m r c; Some (rs @ q) })
          (clients s) (head m) []"
    using assms(1) by (simp add: update_current_pass_def)
  also have "\<dots> = fold_clients (\<lambda>r c rs. do { q \<leftarrow> update_current_client cfg s m r c; Some (rs @ q) })
          (clients s) xs []"
    by (rule for_clients_clist[OF assms(2)])
  also have "\<dots> = Some ([] @ concat (map (\<lambda>r. pass_body cfg s m (length xs = 1) r (the (clients s r))) xs))"
    by (rule fold_clients_append[OF al]) (simp add: body)
  finally show ?thesis by simp
qed


text \<open>
  Claim C5. When the clients of the current desktop are the list \<open>xs\<close>, the loop of
  \<open>update_current\<close> sends one border width for every client, in list order: 0 if the
  list has exactly one client, or the client is fullscreen, or the mode is \<open>MONOCLE\<close> and
  the client is neither floating nor transient, and \<open>BORDER_WIDTH\<close> otherwise. With a
  \<open>BORDER_WIDTH\<close> other than 0 the width is 0 exactly in these cases, and in mode
  \<open>MONOCLE\<close> every client that is neither floating nor transient gets the width 0.
\<close>

theorem update_current_pass_border_width:
  assumes "getCM s = Some m" and "clist (clients s) (head m) xs"
  shows "\<exists>rs. update_current_pass cfg s = Some rs
     \<and> border_widths rs
        = map (\<lambda>r. (win (the (clients s r)),
                 if length xs = 1 \<or> isfullscrn (the (clients s r))
                    \<or> (mode m = MONOCLE \<and> \<not> isfloating (the (clients s r))
                        \<and> \<not> istransient (the (clients s r)))
                 then 0 else BORDER_WIDTH cfg)) xs
     \<and> (BORDER_WIDTH cfg \<noteq> 0 \<longrightarrow>
          (\<forall>i < length xs. snd (border_widths rs ! i) = 0 \<longleftrightarrow>
             length xs = 1 \<or> isfullscrn (the (clients s (xs ! i)))
             \<or> (mode m = MONOCLE \<and> \<not> isfloating (the (clients s (xs ! i)))
                 \<and> \<not> istransient (the (clients s (xs ! i))))))
     \<and> (mode m = MONOCLE \<longrightarrow>
          (\<forall>i < length xs. \<not> isfloating (the (clients s (xs ! i)))
               \<and> \<not> istransient (the (clients s (xs ! i)))
             \<longrightarrow> border_widths rs ! i = (win (the (clients s (xs ! i))), 0)))"
proof -
  let ?rs = "concat (map (\<lambda>r. pass_body cfg s m (length xs = 1) r (the (clients s r))) xs)"
  have p: "update_current_pass cfg s = Some ?rs"
    by (rule update_current_pass_eq[OF assms])
  have b: "border_widths ?rs
        = map (\<lambda>r. (win (the (clients s r)),
                 if length xs = 1 \<or> isfullscrn (the (clients s r))
                    \<or> (mode m = MONOCLE \<and> \<not> isfloating (the (clients s r))
                        \<and> \<not> istransient (the (clients s r)))
                 then 0 else BORDER_WIDTH cfg)) xs"
    by (simp add: border_widths_pass)
  show ?thesis
  proof (intro exI[of _ ?rs] conjI)
    show "update_current_pass cfg s = Some ?rs" by (rule p)
    show "border_widths ?rs
        = map (\<lambda>r. (win (the (clients s r)),
                 if length xs = 1 \<or> isfullscrn (the (clients s r))
                    \<or> (mode m = MONOCLE \<and> \<not> isfloating (the (clients s r))
                        \<and> \<not> istransient (the (clients s r)))
                 then 0 else BORDER_WIDTH cfg)) xs"
      by (rule b)
    show "BORDER_WIDTH cfg \<noteq> 0 \<longrightarrow>
          (\<forall>i < length xs. snd (border_widths ?rs ! i) = 0 \<longleftrightarrow>
             length xs = 1 \<or> isfullscrn (the (clients s (xs ! i)))
             \<or> (mode m = MONOCLE \<and> \<not> isfloating (the (clients s (xs ! i)))
                 \<and> \<not> istransient (the (clients s (xs ! i)))))"
      unfolding b by auto
    show "mode m = MONOCLE \<longrightarrow>
          (\<forall>i < length xs. \<not> isfloating (the (clients s (xs ! i)))
               \<and> \<not> istransient (the (clients s (xs ! i)))
             \<longrightarrow> border_widths ?rs ! i = (win (the (clients s (xs ! i))), 0))"
      unfolding b by auto
  qed
qed


theorem update_current_pass_border_width_witness:
  "getCM ex_state = Some ex_monitor \<and> clist (clients ex_state) (head ex_monitor) [1, 2, 3]
   \<and> BORDER_WIDTH S1_config = 2
   \<and> map_option border_widths (update_current_pass S1_config ex_state)
       = Some [(11, 2), (12, 2), (13, 2)]
   \<and> getCM ex_monocle = Some (ex_monitor\<lparr>mode := MONOCLE\<rparr>)
   \<and> map_option border_widths (update_current_pass S1_config ex_monocle)
       = Some [(11, 0), (12, 0), (13, 0)]"
proof -
  let ?m = "ex_monitor\<lparr>mode := MONOCLE\<rparr>"
  have g: "getCM ex_state = Some ex_monitor" "getCM ex_monocle = Some ?m"
    by (simp_all add: getCM_def ex_monocle_def ex_state_def)
  have c: "clients ex_monocle = ex_clients" "clients ex_state = ex_clients"
    by (simp_all add: ex_monocle_def ex_state_def)
  have h: "head ?m = Some 1" "head ex_monitor = Some 1" "mode ?m = MONOCLE" "mode ex_monitor = TILE"
    by (simp_all add: ex_monitor_def)
  have l: "clist (clients ex_state) (head ex_monitor) [1, 2, 3]"
    "clist (clients ex_monocle) (head ?m) [1, 2, 3]"
    unfolding c h by (simp_all add: ex_clients_def ex_client_def)
  have b: "BORDER_WIDTH S1_config = 2" by (simp add: S1_config_def)
  note t1 = update_current_pass_border_width[OF g(1) l(1), of S1_config, unfolded c h b]
  note t2 = update_current_pass_border_width[OF g(2) l(2), of S1_config, unfolded c h b]
  from t1 obtain rs where rs: "update_current_pass S1_config ex_state = Some rs"
    "border_widths rs = [(11, 2), (12, 2), (13, 2)]"
    by (auto simp: ex_clients_def ex_client_def)
  from t2 obtain rs' where rs': "update_current_pass S1_config ex_monocle = Some rs'"
    "border_widths rs' = [(11, 0), (12, 0), (13, 0)]"
    by (auto simp: ex_clients_def ex_client_def)
  show ?thesis using g l(1) b rs rs' by simp
qed


subsection \<open>A tiling pass over a well-formed list returns\<close>

lemma fold_clients_inv:
  assumes "\<forall>r \<in> set ys. h r \<noteq> None" "I a"
    and "\<And>r c a. r \<in> set ys \<Longrightarrow> h r = Some c \<Longrightarrow> I a \<Longrightarrow> \<exists>a'. body r c a = Some a' \<and> I a'"
  shows "\<exists>a'. fold_clients body h ys a = Some a' \<and> I a'"
  using assms
proof (induction ys arbitrary: a)
  case Nil
  then show ?case by simp
next
  case (Cons r rs)
  then obtain c where c: "h r = Some c" by auto
  obtain a1 where a1: "body r c a = Some a1" "I a1"
    using Cons.prems(3)[of r c a] c Cons.prems(2) by auto
  have "\<exists>a'. fold_clients body h rs a1 = Some a' \<and> I a'"
    using Cons.prems a1 by (intro Cons.IH) auto
  then show ?case using c a1 by simp
qed

lemma fold_clients_total:
  assumes "\<forall>r \<in> set ys. h r \<noteq> None" "\<And>r c a. body r c a \<noteq> None"
  shows "\<exists>a'. fold_clients body h ys a = Some a'"
  using fold_clients_inv[where I = "\<lambda>_. True" and body = body, OF assms(1)] assms(2)
  by (metis not_Some_eq)

lemma clist_allocated: "clist h p xs \<Longrightarrow> \<forall>r \<in> set xs. h r \<noteq> None"
  using clist_alloc by fastforce

lemma for_clients_total:
  assumes "clist h p ys" "\<And>r c a. body r c a \<noteq> None"
  shows "\<exists>a'. for_clients body h p a = Some a'"
  unfolding for_clients_clist[OF assms(1)]
  by (rule fold_clients_total[OF clist_allocated[OF assms(1)]]) (rule assms(2))

lemma bind_total:
  assumes "\<exists>a. f = Some a" "\<And>a. \<exists>b. g a = Some b"
  shows "\<exists>b. Option.bind f g = Some b"
  using assms by (cases f) auto

lemma monocle_total:
  assumes "clist h (head m) xs"
  shows "\<exists>rs. monocle cfg hh cy m h = Some rs"
  unfolding monocle_def for_clients_clist[OF assms]
  by (rule fold_clients_total[OF clist_allocated[OF assms]]) simp

lemma clist_split:
  "clist h p (as @ r # bs) \<Longrightarrow> \<exists>c. h r = Some c \<and> clist h (nxt c) bs"
  by (induction as arbitrary: p) auto

lemma count_fold:
  assumes "\<forall>r \<in> set ys. h r \<noteq> None"
  shows "fold_clients
      (\<lambda>r t (c, n). Some (if \<not> ISFFT t then (if c \<noteq> None then (c, n + 1) else (Some r, n)) else (c, n)))
      h ys (c0, n0)
    = Some (if c0 \<noteq> None then (c0, n0 + int (length (tileable h ys)))
            else (case tileable h ys of [] \<Rightarrow> (None, n0)
                  | t # ts \<Rightarrow> (Some t, n0 + int (length ts))))"
  using assms
proof (induction ys arbitrary: c0 n0)
  case Nil
  then show ?case by (simp add: tileable_def)
next
  case (Cons r rs)
  then obtain c where c: "h r = Some c" by auto
  have al: "\<forall>r \<in> set rs. h r \<noteq> None" using Cons.prems by simp
  show ?case
    using c by (simp add: Cons.IH[OF al] tileable_def split: list.splits)
qed

lemma skip_clist:
  "clist h p ys \<Longrightarrow> stack_skip h p = Some (case tileable h ys of [] \<Rightarrow> None | u # _ \<Rightarrow> Some u)"
proof (induction ys arbitrary: p)
  case Nil
  then show ?case by (simp add: stack_skip.simps tileable_def)
next
  case (Cons r rs)
  then obtain c where c: "p = Some r" "h r = Some c" "clist h (nxt c) rs" by auto
  show ?case
    using c Cons.IH[OF c(3)] by (subst stack_skip.simps) (simp add: tileable_def)
qed

lemma tileable_Cons_split:
  assumes "tileable h xs = t # ts"
  shows "\<exists>as rest. xs = as @ t # rest \<and> tileable h rest = ts"
  using assms unfolding tileable_def by (auto simp: filter_eq_Cons_iff)

lemma stack_total:
  assumes "clist h (head m) xs"
  shows "\<exists>rs. stack cfg hh cy m h = Some rs"
proof -
  note al = clist_allocated[OF assms]
  let ?cnt = "for_clients
        (\<lambda>r t (c, n). Some (if \<not> ISFFT t then (if c \<noteq> None then (c, n + 1) else (Some r, n)) else (c, n)))
        h (head m) (None, 0::int)"
  have cnt: "?cnt = Some (case tileable h xs of [] \<Rightarrow> (None, 0)
                  | t # ts \<Rightarrow> (Some t, int (length ts)))"
    unfolding for_clients_clist[OF assms] count_fold[OF al] by (simp split: list.splits)
  show ?thesis
  proof (cases "tileable h xs")
    case Nil
    then show ?thesis using cnt by (simp add: stack_def Let_def)
  next
    case (Cons t ts)
    then obtain as rest where sp: "xs = as @ t # rest" "tileable h rest = ts"
      using tileable_Cons_split by blast
    then obtain cl where cl: "h t = Some cl" "clist h (nxt cl) rest"
      using clist_split assms by blast
    show ?thesis
    proof (cases ts)
      case Nil
      then show ?thesis using cnt Cons cl by (simp add: stack_def Let_def)
    next
      case (Cons u us)
      then obtain as2 rest2 where sp2: "rest = as2 @ u # rest2"
        using tileable_Cons_split sp(2) by blast
      then obtain cl2 where cl2: "h u = Some cl2" "clist h (nxt cl2) rest2"
        using clist_split cl(2) by blast
      have sk: "stack_skip h (nxt cl) = Some (Some u)"
        using skip_clist[OF cl(2)] sp(2) Cons by simp
      have n: "int (length ts) \<noteq> 0" using Cons by simp
      show ?thesis
        using cnt \<open>tileable h xs = t # ts\<close> cl sk cl2 n
        apply (simp add: stack_def Let_def deref_def split del: if_split)
        apply (rule bind_total)
         apply (rule for_clients_total[OF cl2(2)])
         apply (simp split: prod.splits)
        apply (simp split: prod.splits)
        done
    qed
  qed
qed


lemma for_clients_inv:
  assumes "clist h p ys" "I a"
    and "\<And>r c a. I a \<Longrightarrow> \<exists>a'. body r c a = Some a' \<and> I a'"
  shows "\<exists>a'. for_clients body h p a = Some a'"
proof -
  have "\<exists>a'. fold_clients body h ys a = Some a' \<and> I a'"
    by (rule fold_clients_inv[where I = I and body = body, OF clist_allocated[OF assms(1)] assms(2)])
       (rule assms(3))
  then show ?thesis unfolding for_clients_clist[OF assms(1)] by blast
qed

lemma grid_count_fold:
  assumes "\<forall>r \<in> set ys. h r \<noteq> None"
  shows "fold_clients (\<lambda>r c n. Some (if \<not> ISFFT c then n + 1 else n)) h ys n0
    = Some (n0 + int (length (tileable h ys)))"
  using assms
proof (induction ys arbitrary: n0)
  case Nil
  then show ?case by (simp add: tileable_def)
next
  case (Cons r rs)
  then obtain c where c: "h r = Some c" by auto
  have al: "\<forall>r \<in> set rs. h r \<noteq> None" using Cons.prems by simp
  show ?case
    using c by (simp add: Cons.IH[OF al] tileable_def)
qed

lemma grid_dims_pos:
  assumes "1 \<le> n"
  shows "\<exists>cols rows. grid_dims n = Some (cols, rows) \<and> 1 \<le> cols \<and> 1 \<le> rows \<and> rows = n sdiv cols"
proof (cases "n = 5")
  case True
  then show ?thesis by (simp add: grid_dims_def cdiv_def Let_def signed_divide_int_def)
next
  case False
  let ?c = "grid_cols n 0"
  have l: "0 \<le> ?c" "n \<le> ?c * ?c" "\<forall>k. 0 \<le> k \<and> n \<le> k * k \<longrightarrow> ?c \<le> k"
    using grid_cols_least[OF assms] by auto
  have c1: "1 \<le> ?c"
  proof (rule ccontr)
    assume "\<not> 1 \<le> ?c"
    then have "?c = 0" using l(1) by linarith
    then show False using l(2) assms by simp
  qed
  have "n \<le> n * n" using assms by (simp add: mult_le_cancel_left1)
  then have cn: "?c \<le> n" using l(3) assms by auto
  have "1 \<le> n div ?c" using c1 cn pos_imp_zdiv_pos_iff[of ?c n] by linarith
  moreover have "n sdiv ?c = n div ?c"
    using c1 assms by (simp add: signed_divide_int_def sgn_if)
  ultimately show ?thesis
    using False c1 by (simp add: grid_dims_def cdiv_def Let_def)
qed

lemma grid_total:
  assumes "clist h (head m) xs" "tileable h xs \<noteq> []"
  shows "\<exists>rs. grid cfg hh cy m h = Some rs"
proof -
  note al = clist_allocated[OF assms(1)]
  let ?n = "int (length (tileable h xs))"
  have cnt: "for_clients (\<lambda>r c n. Some (if \<not> ISFFT c then n + 1 else n)) h (head m) (0::int) = Some ?n"
    unfolding for_clients_clist[OF assms(1)] grid_count_fold[OF al] by simp
  have "1 \<le> ?n" using assms(2) by (cases "tileable h xs") auto
  then obtain cols rows where d: "grid_dims ?n = Some (cols, rows)" "1 \<le> cols" "1 \<le> rows"
      "rows = ?n sdiv cols"
    using grid_dims_pos by blast
  show ?thesis
    using cnt d
    apply (simp add: grid_def Let_def split del: if_split)
    apply (rule bind_total)
     apply (rule for_clients_inv[OF assms(1), where I = "\<lambda>(rows, _). 1 \<le> rows"])
      apply simp
     apply (auto simp: cdiv_def cmod_def Let_def split: prod.splits)[1]
    apply (simp split: prod.splits)
    done
qed

lemma tile_total:
  assumes "getCM s = Some m" "clist (clients s) (head m) xs" "layout_ok m (clients s) xs"
  shows "\<exists>rs. tile cfg s = Some (emit rs s)"
proof (cases xs)
  case Nil
  then show ?thesis using assms by (auto simp: tile_def intro: exI[of _ "[]"] simp: emit_nil)
next
  case (Cons x rest)
  then obtain hc where hc: "head m = Some x" "clients s x = Some hc" "clist (clients s) (nxt hc) rest"
    using assms(2) by auto
  have one: "nxt hc = None \<longleftrightarrow> length xs \<le> 1" using hc(3) Cons by (cases rest) auto
  have "\<exists>f. layout (if nxt hc \<noteq> None then mode m else MONOCLE) = Some f
            \<and> (\<forall>hh cy. \<exists>rs. f cfg hh cy m (clients s) = Some rs)"
  proof (cases "nxt hc = None")
    case True
    then show ?thesis using monocle_total[OF assms(2)] by (simp add: layout_def)
  next
    case False
    then have "mode m = TILE \<or> mode m = MONOCLE \<or> mode m = BSTACK
         \<or> (mode m = GRID \<and> tileable (clients s) xs \<noteq> [])"
      using assms(3) one by (simp add: layout_ok_def)
    then show ?thesis
      using False monocle_total[OF assms(2)] stack_total[OF assms(2)] grid_total[OF assms(2)]
      by (auto simp: layout_def)
  qed
  then obtain f where f: "layout (if nxt hc \<noteq> None then mode m else MONOCLE) = Some f"
      "\<And>hh cy. \<exists>rs. f cfg hh cy m (clients s) = Some rs"
    by blast
  obtain rs where "f cfg (wh m + (if showpanel m then 0 else PANEL_HEIGHT cfg))
                 (if TOP_PANEL cfg \<and> showpanel m then PANEL_HEIGHT cfg else 0) m (clients s) = Some rs"
    using f(2) by blast
  then show ?thesis
    using assms(1) hc f(1) by (auto simp: tile_def)
qed



subsection \<open>Paths and lists in the heap\<close>

lemma cpath_append:
  "cpath h p (as @ bs) q \<longleftrightarrow> (\<exists>r. cpath h p as r \<and> cpath h r bs q)"
  by (induction as arbitrary: p) (auto split: option.splits)

lemma cpath_upd_notin:
  "u \<notin> set as \<Longrightarrow> cpath (h(u := v)) p as q = cpath h p as q"
  by (induction as arbitrary: p) (auto split: option.splits)

lemma clist_upd_notin:
  "u \<notin> set xs \<Longrightarrow> clist (h(u := v)) p xs = clist h p xs"
  by (simp add: clist_def cpath_upd_notin)

lemma clist_append:
  "clist h p (as @ bs) \<longleftrightarrow> (\<exists>r. cpath h p as r \<and> clist h r bs)"
  by (simp add: clist_def cpath_append)

lemma clist_unique: "clist h p xs \<Longrightarrow> clist h p ys \<Longrightarrow> xs = ys"
proof (induction xs arbitrary: p ys)
  case Nil
  then show ?case by simp
next
  case (Cons r rs)
  then show ?case by (cases ys) auto
qed

lemma clist_suffix: "clist h p (as @ bs) \<Longrightarrow> \<exists>q. clist h q bs"
  by (auto simp: clist_append)

lemma clist_not_in_tail:
  assumes "clist h (Some r) (r # rs)"
  shows "r \<notin> set rs"
proof
  assume "r \<in> set rs"
  then obtain as bs where sp: "rs = as @ r # bs" by (meson split_list)
  then have "clist h (Some r) ((r # as) @ r # bs)" using assms by simp
  then obtain q where q: "clist h q (r # bs)" using clist_suffix by blast
  then have "q = Some r" by simp
  then have "r # bs = r # rs" using q assms clist_unique by blast
  then show False using sp by simp
qed

lemma clist_distinct: "clist h p xs \<Longrightarrow> distinct xs"
proof (induction xs arbitrary: p)
  case Nil
  then show ?case by simp
next
  case (Cons r rs)
  then have "p = Some r" by simp
  then have "r \<notin> set rs" using clist_not_in_tail Cons.prems by blast
  moreover have "distinct rs" using Cons by auto
  ultimately show ?case by simp
qed


lemma clist_mid:
  "clist h p (as @ r # bs) \<longleftrightarrow> cpath h p as (Some r) \<and> (\<exists>c. h r = Some c \<and> clist h (nxt c) bs)"
  by (auto simp: clist_append)

lemma cpath_snoc:
  "cpath h p (as @ [r]) q \<longleftrightarrow> cpath h p as (Some r) \<and> (\<exists>c. h r = Some c \<and> nxt c = q)"
  by (auto simp: cpath_append split: option.splits)

subsection \<open>The loops of \<open>prev_client\<close> and \<open>move_up\<close>\<close>

lemma prev_client_loop_clist:
  "clist h (Some p) (p # rest) \<Longrightarrow> prev_client_loop h p c = Some (list_prev c p rest)"
proof (induction rest arbitrary: p)
  case Nil
  then show ?case by (subst prev_client_loop.simps) auto
next
  case (Cons q rest)
  then obtain pc where pc: "h p = Some pc" "nxt pc = Some q" "clist h (Some q) (q # rest)"
    by auto
  show ?case
    using pc Cons.IH[OF pc(3)] by (subst prev_client_loop.simps) simp
qed






subsection \<open>State updates and the effect of a move on the heap\<close>

lemma getCM_putCM: "getCM s = Some m0 \<Longrightarrow> getCM (putCM m s) = Some m"
  by (auto simp: getCM_def putCM_def split: if_splits)

lemma clients_putCM [simp]: "clients (putCM m s) = clients s"
  by (simp add: putCM_def)

lemma getCM_clients_update [simp]: "getCM (s\<lparr>clients := h\<rparr>) = getCM s"
  by (simp add: getCM_def)

lemma getCM_emit [simp]: "getCM (emit rs s) = getCM s"
  by (simp add: getCM_def emit_def)

lemma clients_emit [simp]: "clients (emit rs s) = clients s"
  by (simp add: emit_def)

lemma set_next_eq:
  "clients s r = Some c \<Longrightarrow> set_next r v s = Some (s\<lparr>clients := (clients s)(r \<mapsto> c\<lparr>nxt := v\<rparr>)\<rparr>)"
  by (simp add: set_next_def upd_client_def)

lemma prev_client_clist:
  assumes "getCM s = Some m" "clist (clients s) (head m) (x # y # zs)"
  shows "prev_client s (Some c) = Some (Some (list_prev c x (y # zs)))"
proof -
  from assms(2) obtain hc where hc: "head m = Some x" "clients s x = Some hc" "nxt hc = Some y"
    by auto
  have "clist (clients s) (Some x) (x # y # zs)" using assms(2) hc by simp
  from prev_client_loop_clist[OF this, of c] show ?thesis
    using assms(1) hc by (simp add: prev_client_def)
qed


lemma putCM_clients_update [simp]: "(putCM m s)\<lparr>clients := h\<rparr> = putCM m (s\<lparr>clients := h\<rparr>)"
  by (simp add: putCM_def)

lemma putCM_putCM [simp]: "putCM m2 (putCM m1 s) = putCM m2 s"
  by (simp add: putCM_def)


lemma deref_Some [simp]: "deref h (Some r) = h r"
  by (simp add: deref_def)



lemma putCM_same: "getCM s = Some m \<Longrightarrow> putCM m s = s"
  by (auto simp: getCM_def putCM_def split: if_splits)











subsection \<open>Moving an element of a list\<close>

























subsection \<open>\<open>move_down\<close> and \<open>move_up\<close>\<close>

lemma grid_none:
  assumes "clist h (head m) xs" "tileable h xs = []"
  shows "grid cfg hh cy m h = None"
proof -
  note al = clist_allocated[OF assms(1)]
  have cnt: "for_clients (\<lambda>r c n. Some (if \<not> ISFFT c then n + 1 else n)) h (head m) (0::int) = Some 0"
    unfolding for_clients_clist[OF assms(1)] grid_count_fold[OF al] using assms(2) by simp
  have "grid_cols 0 0 = 0" by (subst grid_cols.simps) (simp add: signed_divide_int_def)
  then have "grid_dims 0 = None" by (simp add: grid_dims_def cdiv_def)
  then show ?thesis using cnt by (simp add: grid_def)
qed

lemma tile_defined_iff:
  assumes "getCM s = Some m" "clist (clients s) (head m) xs"
  shows "tile cfg s \<noteq> None \<longleftrightarrow> layout_ok m (clients s) xs"
proof
  assume "layout_ok m (clients s) xs"
  then show "tile cfg s \<noteq> None" using tile_total[OF assms, of cfg] by auto
next
  assume t: "tile cfg s \<noteq> None"
  show "layout_ok m (clients s) xs"
  proof (rule ccontr)
    assume n: "\<not> layout_ok m (clients s) xs"
    then have len: "2 \<le> length xs" by (simp add: layout_ok_def)
    then obtain x y zs where xs: "xs = x # y # zs" by (cases xs; cases "tl xs") auto
    then obtain hc where hc: "head m = Some x" "clients s x = Some hc" "nxt hc = Some y"
      using assms(2) by auto
    have "mode m \<noteq> TILE" "mode m \<noteq> MONOCLE" "mode m \<noteq> BSTACK" using n by (auto simp: layout_ok_def)
    moreover have "mode m = GRID \<longrightarrow> grid cfg hh cy m (clients s) = None" for hh cy
      using n grid_none[OF assms(2)] by (auto simp: layout_ok_def)
    ultimately have "tile cfg s = None"
      using assms(1) hc by (auto simp: tile_def layout_def)
    then show False using t by simp
  qed
qed


lemma emit_emit: "emit rs2 (emit rs1 s) = emit (rs1 @ rs2) s"
  by (simp add: emit_def)


lemma putCM_emit: "putCM m (emit rs s) = emit rs (putCM m s)"
  by (simp add: emit_def putCM_def)







subsection \<open>Products in \<^verbatim>\<open>double\<close>\<close>

text \<open>
  The width of the master area at startup, for some screen widths and values of
  \<open>MASTER_SIZE\<close>: the rounding of the literal and of the product shows at 0.58.
\<close>

lemma binary64_examples:
  "binary64 (1 / 2) = 1 / 2
   \<and> binary64 (1 / 10) = 3602879701896397 / 36028797018963968
   \<and> trunc (binary64 (1598 * binary64 (52 / 100))) = 830
   \<and> trunc (binary64 (1600 * binary64 (52 / 100))) = 832
   \<and> trunc (binary64 (100 * binary64 (58 / 100))) = 57
   \<and> trunc (binary64 (50 * binary64 (58 / 100))) = 28"
  by code_simp


subsection \<open>Selecting a desktop\<close>

lemma select_desktop_eq:
  assumes "getCM s = Some m" "wf_monitor cfg m" "0 \<le> i" "i < DESKTOPS cfg"
  shows "select_desktop cfg i s = Some (putCM (switch_to i m) s)"
proof -
  have a: "nat (current_desktop m) < length (desktops m)" "nat i < length (desktops m)"
    "\<not> (current_desktop m < 0 \<or> DESKTOPS cfg \<le> current_desktop m)"
    using assms by (auto simp: wf_monitor_def)
  have sv: "save_desktop cfg (current_desktop m) s
      = Some (putCM (m\<lparr>desktops := (desktops m)[nat (current_desktop m) := live m]\<rparr>) s)"
    using assms(1) a by (simp add: save_desktop_def live_def)
  show ?thesis
    using assms a sv
    by (simp add: select_desktop_def getCM_putCM switch_to_def Let_def)
qed

lemma switch_to_simps [simp]:
  "current_desktop (switch_to i m) = i"
  "length (desktops (switch_to i m)) = length (desktops m)"
  "wh (switch_to i m) = wh m" "ww (switch_to i m) = ww m"
  "wx (switch_to i m) = wx m" "wy (switch_to i m) = wy m"
  "previous_desktop (switch_to i m) = previous_desktop m"
  by (simp_all add: switch_to_def Let_def)

lemma wf_switch_to:
  "wf_monitor cfg m \<Longrightarrow> 0 \<le> i \<Longrightarrow> i < DESKTOPS cfg \<Longrightarrow> wf_monitor cfg (switch_to i m)"
  by (simp add: wf_monitor_def)

lemma live_desktop_eta:
  "\<lparr>desktop.master_size = desktop.master_size d, desktop.mode = desktop.mode d,
     desktop.growth = desktop.growth d, desktop.head = desktop.head d,
     desktop.current = desktop.current d, desktop.prevfocus = desktop.prevfocus d,
     desktop.showpanel = desktop.showpanel d\<rparr> = d"
  by simp

lemma live_switch_to:
  assumes "wf_monitor cfg m" "0 \<le> i" "i < DESKTOPS cfg"
  shows "live (switch_to i m) = dview m (nat i)"
proof -
  have a: "nat (current_desktop m) < length (desktops m)" "nat i < length (desktops m)"
    using assms by (auto simp: wf_monitor_def)
  show ?thesis
  proof (cases "i = current_desktop m")
    case True
    then show ?thesis using a assms(2) by (simp add: live_def switch_to_def Let_def dview_def)
  next
    case False
    then have "nat i \<noteq> nat (current_desktop m)" using assms by (auto simp: wf_monitor_def)
    then show ?thesis using a assms(2) False
      by (simp add: live_def switch_to_def Let_def dview_def)
  qed
qed

lemma dview_switch_to:
  assumes "wf_monitor cfg m" "0 \<le> i" "i < DESKTOPS cfg" "d < nat (DESKTOPS cfg)"
  shows "dview (switch_to i m) d = dview m d"
proof (cases "int d = i")
  case True
  then have "nat i = d" by simp
  then show ?thesis using live_switch_to[OF assms(1-3)] True by (simp add: dview_def[of "switch_to i m"])
next
  case False
  have a: "nat (current_desktop m) < length (desktops m)" "d < length (desktops m)"
    using assms by (auto simp: wf_monitor_def)
  have cd: "0 \<le> current_desktop m" using assms(1) by (simp add: wf_monitor_def)
  show ?thesis
  proof (cases "int d = current_desktop m")
    case True
    then have "nat (current_desktop m) = d" by simp
    then show ?thesis using False a True by (simp add: dview_def switch_to_def Let_def)
  next
    case f2: False
    then have "nat (current_desktop m) \<noteq> d" using cd by auto
    then show ?thesis using False a f2 by (simp add: dview_def switch_to_def Let_def)
  qed
qed

lemma head_live [simp]: "desktop.head (live m) = head m"
  "desktop.current (live m) = current m" "desktop.prevfocus (live m) = prevfocus m"
  "desktop.mode (live m) = mode m"
  by (simp_all add: live_def)


subsection \<open>Finding a client for removal\<close>

lemma removeclient_scan_list:
  "read_loc s p = Some start \<Longrightarrow> clist (clients s) start L
   \<Longrightarrow> removeclient_scan s c p found = Some (scan_list c p found L)"
proof (induction L arbitrary: p start found)
  case Nil
  then show ?case by (subst removeclient_scan.simps) simp
next
  case (Cons q qs)
  then obtain qc where q: "start = Some q" "clients s q = Some qc" "clist (clients s) (nxt qc) qs"
    by auto
  have r: "read_loc s (NextLoc q) = Some (nxt qc)" using q by (simp add: read_loc_def)
  show ?case
    using Cons.prems(1) q Cons.IH[OF r q(3)]
    by (subst removeclient_scan.simps) simp
qed

lemma scan_list_notin: "c \<notin> set L \<Longrightarrow> snd (scan_list c p False L) = False"
  by (induction L arbitrary: p) auto

lemma scan_list_found:
  "c \<notin> set as \<Longrightarrow>
   scan_list c p f (as @ c # bs) = ((if as = [] then p else NextLoc (last as)), True)"
  by (induction as arbitrary: p f) auto

lemma read_loc_head: "getCM s = Some m \<Longrightarrow> read_loc s HeadLoc = Some (head m)"
  by (simp add: read_loc_def)

lemma removeclient_desktops_found:
  assumes "getCM s = Some mm" "wf_monitor cfg mm" "0 \<le> nd" "nd \<le> cd" "cd < DESKTOPS cfg"
    and "\<forall>d. nat nd \<le> d \<and> d < nat cd \<longrightarrow>
           (\<exists>L. clist (clients s) (desktop.head (dview mm d)) L \<and> c \<notin> set L)"
    and "clist (clients s) (desktop.head (dview mm (nat cd))) xs" "c \<in> set xs"
  shows "\<exists>mf. removeclient_desktops cfg c nd False p s
             = Some (Some (fst (scan_list c HeadLoc False xs)), cd + 1, putCM mf s)
           \<and> wf_monitor cfg mf \<and> current_desktop mf = cd \<and> live mf = dview mm (nat cd)"
  using assms
proof (induction "nat (cd - nd)" arbitrary: nd mm s p)
  case 0
  then have nd: "nd = cd" by simp
  let ?m1 = "switch_to cd mm"
  let ?s1 = "putCM ?m1 s"
  have sd: "select_desktop cfg cd s = Some ?s1"
    using select_desktop_eq[OF "0.prems"(1,2)] "0.prems" nd by simp
  have g1: "getCM ?s1 = Some ?m1" using "0.prems"(1) by (simp add: getCM_putCM)
  have lv: "live ?m1 = dview mm (nat cd)"
    using live_switch_to[OF "0.prems"(2)] "0.prems" nd by simp
  then have "head ?m1 = desktop.head (dview mm (nat cd))" by (metis head_live(1))
  then have l1: "clist (clients ?s1) (head ?m1) xs" using "0.prems"(7) by simp
  obtain as bs where sp: "xs = as @ c # bs" "c \<notin> set as"
    using "0.prems"(8) by (meson split_list_first)
  have sc: "removeclient_scan ?s1 c HeadLoc False = Some (scan_list c HeadLoc False xs)"
    by (rule removeclient_scan_list[OF read_loc_head[OF g1] l1])
  obtain pl where fnd: "scan_list c HeadLoc False xs = (pl, True)"
    using sp by (simp add: scan_list_found)
  have "removeclient_desktops cfg c nd False p s = Some (Some pl, cd + 1, ?s1)"
    using nd "0.prems"(5) sd sc fnd
    by (subst removeclient_desktops.simps)
       (simp add: removeclient_desktops.simps[of cfg c "cd + 1" True])
  then have "removeclient_desktops cfg c nd False p s
      = Some (Some (fst (scan_list c HeadLoc False xs)), cd + 1, ?s1)"
    using fnd by simp
  moreover have "wf_monitor cfg ?m1" using wf_switch_to[OF "0.prems"(2)] "0.prems" nd by simp
  ultimately show ?case using lv by (intro exI[of _ ?m1]) simp
next
  case (Suc k)
  then have lt: "nd < cd" by linarith
  let ?m1 = "switch_to nd mm"
  let ?s1 = "putCM ?m1 s"
  have r: "0 \<le> nd" "nd < DESKTOPS cfg" using Suc.prems lt by auto
  have sd: "select_desktop cfg nd s = Some ?s1"
    by (rule select_desktop_eq[OF Suc.prems(1,2) r])
  have g1: "getCM ?s1 = Some ?m1" using Suc.prems(1) by (simp add: getCM_putCM)
  have wf1: "wf_monitor cfg ?m1" by (rule wf_switch_to[OF Suc.prems(2) r])
  have lv: "live ?m1 = dview mm (nat nd)" by (rule live_switch_to[OF Suc.prems(2) r])
  have dv: "dview ?m1 d = dview mm d" if "d < nat (DESKTOPS cfg)" for d
    by (rule dview_switch_to[OF Suc.prems(2) r that])
  obtain L where L: "clist (clients s) (desktop.head (dview mm (nat nd))) L" "c \<notin> set L"
    using Suc.prems(6) lt r by (metis le_refl nat_less_eq_zless)
  have "head ?m1 = desktop.head (dview mm (nat nd))" using lv by (metis head_live(1))
  then have l1: "clist (clients ?s1) (head ?m1) L" using L by simp
  have sc: "removeclient_scan ?s1 c HeadLoc False = Some (scan_list c HeadLoc False L)"
    by (rule removeclient_scan_list[OF read_loc_head[OF g1] l1])
  obtain p' where nf: "scan_list c HeadLoc False L = (p', False)"
    using scan_list_notin[OF L(2), of HeadLoc] by (cases "scan_list c HeadLoc False L") auto
  have k: "k = nat (cd - (nd + 1))" using Suc.hyps(2) by linarith
  have a6: "\<forall>d. nat (nd + 1) \<le> d \<and> d < nat cd \<longrightarrow>
           (\<exists>L. clist (clients ?s1) (desktop.head (dview ?m1 d)) L \<and> c \<notin> set L)"
  proof (intro allI impI)
    fix d assume d: "nat (nd + 1) \<le> d \<and> d < nat cd"
    then have "d < nat (DESKTOPS cfg)" using Suc.prems(5) by linarith
    moreover have "nat nd \<le> d \<and> d < nat cd" using d by linarith
    ultimately show "\<exists>L. clist (clients ?s1) (desktop.head (dview ?m1 d)) L \<and> c \<notin> set L"
      using Suc.prems(6) dv by simp
  qed
  have a7: "clist (clients ?s1) (desktop.head (dview ?m1 (nat cd))) xs"
    using Suc.prems(7) dv[of "nat cd"] Suc.prems(5) r lt by simp
  obtain mf where mf: "removeclient_desktops cfg c (nd + 1) False (Some p') ?s1
             = Some (Some (fst (scan_list c HeadLoc False xs)), cd + 1, putCM mf ?s1)"
      "wf_monitor cfg mf" "current_desktop mf = cd" "live mf = dview ?m1 (nat cd)"
    using Suc.hyps(1)[OF k g1 wf1 _ _ Suc.prems(5) a6 a7 Suc.prems(8), of "Some p'"] r lt
    by auto
  have "removeclient_desktops cfg c nd False p s
      = Some (Some (fst (scan_list c HeadLoc False xs)), cd + 1, putCM mf s)"
    using r sd sc nf mf(1) by (subst removeclient_desktops.simps) simp
  moreover have "live mf = dview mm (nat cd)"
    using mf(4) dv[of "nat cd"] Suc.prems(5) r lt by simp
  ultimately show ?case using mf(2,3) by (intro exI[of _ mf]) simp
qed


subsection \<open>Focusing a client of the list\<close>

lemma prev_client_total:
  assumes "getCM s = Some m" "clist (clients s) (head m) ys" "ys \<noteq> []"
  shows "\<exists>pv. prev_client s (Some r) = Some pv"
proof (cases ys)
  case Nil
  then show ?thesis using assms(3) by simp
next
  case (Cons x rest)
  show ?thesis
  proof (cases rest)
    case Nil
    then obtain hc where "head m = Some x" "clients s x = Some hc" "nxt hc = None"
      using assms(2) Cons by auto
    then show ?thesis using assms(1) by (simp add: prev_client_def)
  next
    case (Cons y zs)
    then show ?thesis
      using prev_client_clist[OF assms(1), of x y zs r] assms(2) \<open>ys = x # rest\<close> by simp
  qed
qed

lemma grabbuttons_emit: "\<exists>rs. grabbuttons cfg c s = emit rs s"
  by (auto simp: grabbuttons_def)

lemma layout_ok_mode:
  "mode m' = mode m \<Longrightarrow> layout_ok m' h ys = layout_ok m h ys"
  by (simp add: layout_ok_def)

lemma update_current_run:
  assumes g: "getCM s = Some m1" and l: "clist (clients s) (head m1) ys"
    and cur: "current m1 = Some r" and r: "r \<in> set ys"
  shows "\<exists>rs. update_current_show cfg s
           = (if layout_ok m1 (clients s) ys then Some (emit rs s) else None)"
proof -
  obtain cr where cr: "clients s r = Some cr" using clist_alloc[OF l r] by blast
  note p = update_current_pass_eq[OF g l, of cfg]
  let ?rs = "concat (map (\<lambda>r. pass_body cfg s m1 (length ys = 1) r (the (clients s r))) ys)
                   @ (if isfloating cr \<or> istransient cr then [RaiseWindow (win cr)] else [])
                   @ [ChangeProperty (root s) (netatoms s NET_ACTIVE) [win cr],
                      SetInputFocus (win cr)]"
  obtain rs1 where "grabbuttons cfg cr (emit ?rs s) = emit rs1 (emit ?rs s)"
    using grabbuttons_emit by blast
  then have "\<exists>rs2. (if CLICK_TO_FOCUS cfg then grabbuttons cfg cr (emit ?rs s) else emit ?rs s)
      = emit rs2 s"
    by (cases "CLICK_TO_FOCUS cfg") (auto simp: emit_emit)
  then obtain rs2 where rs2: "(if CLICK_TO_FOCUS cfg then grabbuttons cfg cr (emit ?rs s) else emit ?rs s)
      = emit rs2 s"
    by blast
  have g2: "getCM (emit rs2 s) = Some m1" and l2: "clist (clients (emit rs2 s)) (head m1) ys"
    and c2: "clients (emit rs2 s) = clients s"
    using g l by simp_all
  have "update_current_show cfg s
      = tile cfg (if CLICK_TO_FOCUS cfg then grabbuttons cfg cr (emit ?rs s) else emit ?rs s)"
    using p g cur cr by (simp add: update_current_show_def Let_def)
  then have u: "update_current_show cfg s = tile cfg (emit rs2 s)" by (simp only: rs2)
  show ?thesis
  proof (cases "layout_ok m1 (clients s) ys")
    case True
    then have "layout_ok m1 (clients (emit rs2 s)) ys" by (simp add: c2)
    then obtain rs3 where "tile cfg (emit rs2 s) = Some (emit rs3 (emit rs2 s))"
      using tile_total[OF g2 l2] by blast
    then have "update_current_show cfg s = Some (emit (rs2 @ rs3) s)"
      using u by (simp add: emit_emit)
    then show ?thesis using True by auto
  next
    case False
    then have "\<not> layout_ok m1 (clients (emit rs2 s)) ys" by (simp add: c2)
    then have "tile cfg (emit rs2 s) = None"
      using tile_defined_iff[OF g2 l2, of cfg] by simp
    then show ?thesis using u False by simp
  qed
qed

lemma update_current_some:
  assumes g: "getCM s = Some m" and l: "clist (clients s) (head m) ys"
    and r: "r \<in> set ys"
  shows "\<exists>pf rs. update_current cfg (Some r) s
           = (if layout_ok m (clients s) ys
              then Some (emit rs (putCM (m\<lparr>current := Some r, prevfocus := pf\<rparr>) s)) else None)"
proof -
  have ne: "ys \<noteq> []" using r by auto
  have run: "\<exists>rs. update_current_show cfg (putCM m1 s)
               = (if layout_ok m (clients s) ys then Some (emit rs (putCM m1 s)) else None)"
    if "m1 = m\<lparr>current := Some r, prevfocus := pf\<rparr>" for m1 pf
  proof -
    have g1: "getCM (putCM m1 s) = Some m1" using g by (simp add: getCM_putCM)
    have l1: "clist (clients (putCM m1 s)) (head m1) ys" using l that by simp
    have ok1: "layout_ok m1 (clients (putCM m1 s)) ys = layout_ok m (clients s) ys"
      using that layout_ok_mode[of m1 m] by simp
    have c1: "current m1 = Some r" using that by simp
    show ?thesis using update_current_run[OF g1 l1 c1 r, of cfg] by (simp only: ok1)
  qed
  show ?thesis
  proof (cases "Some r = prevfocus m")
    case True
    let ?s' = "putCM (m\<lparr>current := prevfocus m\<rparr>) s"
    have g': "getCM ?s' = Some (m\<lparr>current := prevfocus m\<rparr>)" using g by (simp add: getCM_putCM)
    have l': "clist (clients ?s') (head (m\<lparr>current := prevfocus m\<rparr>)) ys" using l by simp
    obtain pv where pv: "prev_client ?s' (Some r) = Some pv"
      using prev_client_total[OF g' l' ne] by blast
    let ?m1 = "m\<lparr>current := Some r, prevfocus := pv\<rparr>"
    obtain rs where rs: "update_current_show cfg (putCM ?m1 s)
        = (if layout_ok m (clients s) ys then Some (emit rs (putCM ?m1 s)) else None)"
      using run[of ?m1 pv] by blast
    have "update_current cfg (Some r) s = update_current_show cfg (putCM ?m1 s)"
      using g True[symmetric] g' pv
      by (simp add: update_current_def Let_def getCM_putCM)
    then have "update_current cfg (Some r) s
        = (if layout_ok m (clients s) ys then Some (emit rs (putCM ?m1 s)) else None)"
      by (simp only: rs)
    then show ?thesis by blast
  next
    case False
    show ?thesis
    proof (cases "Some r = current m")
      case True
      let ?m1 = "m\<lparr>current := Some r, prevfocus := prevfocus m\<rparr>"
      have e: "putCM ?m1 s = s" using g True[symmetric] by (simp add: putCM_same)
      obtain rs where rs: "update_current_show cfg (putCM ?m1 s)
          = (if layout_ok m (clients s) ys then Some (emit rs (putCM ?m1 s)) else None)"
        using run[of ?m1] by blast
      have "update_current cfg (Some r) s = update_current_show cfg s"
        using g False True[symmetric]
        by (simp add: update_current_def Let_def)
      then have "update_current cfg (Some r) s = update_current_show cfg (putCM ?m1 s)"
        by (simp only: e)
      then have "update_current cfg (Some r) s
          = (if layout_ok m (clients s) ys then Some (emit rs (putCM ?m1 s)) else None)"
        by (simp only: rs)
      then show ?thesis by blast
    next
      case f2: False
      let ?m1 = "m\<lparr>current := Some r, prevfocus := current m\<rparr>"
      have e: "m\<lparr>prevfocus := current m, current := Some r\<rparr> = ?m1" by simp
      obtain rs where rs: "update_current_show cfg (putCM ?m1 s)
          = (if layout_ok m (clients s) ys then Some (emit rs (putCM ?m1 s)) else None)"
        using run[of ?m1] by blast
      have "update_current cfg (Some r) s
          = update_current_show cfg (putCM (m\<lparr>prevfocus := current m, current := Some r\<rparr>) s)"
        using g False f2
        by (simp add: update_current_def Let_def)
      then have "update_current cfg (Some r) s = update_current_show cfg (putCM ?m1 s)"
        by (simp only: e)
      then have "update_current cfg (Some r) s
          = (if layout_ok m (clients s) ys then Some (emit rs (putCM ?m1 s)) else None)"
        by (simp only: rs)
      then show ?thesis by blast
    qed
  qed
qed


subsection \<open>Unlinking a client\<close>

lemma flags_pointwise:
  assumes "strip h' r = strip h r"
  shows "(case h' r of None \<Rightarrow> False | Some c \<Rightarrow> \<not> ISFFT c)
       = (case h r of None \<Rightarrow> False | Some c \<Rightarrow> \<not> ISFFT c)"
proof -
  have e: "map_option (\<lambda>c. c\<lparr>nxt := None\<rparr>) (h' r) = map_option (\<lambda>c. c\<lparr>nxt := None\<rparr>) (h r)"
    using assms by (simp add: strip_def)
  show ?thesis
  proof (cases "h r")
    case None
    then show ?thesis using e by simp
  next
    case (Some c)
    then obtain c' where c': "h' r = Some c'" "c'\<lparr>nxt := None\<rparr> = c\<lparr>nxt := None\<rparr>"
      using e by auto
    have "ISFFT (c'\<lparr>nxt := None\<rparr>) = ISFFT (c\<lparr>nxt := None\<rparr>)" using c'(2) by simp
    then have "ISFFT c' = ISFFT c" by (simp add: ISFFT_def)
    then show ?thesis using Some c' by simp
  qed
qed

lemma layout_ok_pointwise:
  assumes "\<forall>r \<in> set ys. strip h' r = strip h r" "mode m' = mode m"
  shows "layout_ok m' h' ys = layout_ok m h ys"
proof -
  have "tileable h' ys = tileable h ys"
    unfolding tileable_def using assms(1) by (intro filter_cong refl flags_pointwise) simp
  then show ?thesis using assms(2) by (simp add: layout_ok_def)
qed

lemma strip_upd_other: "r \<noteq> u \<Longrightarrow> strip (h(u := v)) r = strip h r"
  by (simp add: strip_def)

lemma strip_upd_nxt: "h u = Some c \<Longrightarrow> strip (h(u \<mapsto> c\<lparr>nxt := v\<rparr>)) r = strip h r"
  by (simp add: strip_def)

lemma current_monitor_putCM [simp]: "current_monitor (putCM m s) = current_monitor s"
  by (simp add: putCM_def)

lemma current_monitor_emit [simp]: "current_monitor (emit rs s) = current_monitor s"
  by (simp add: emit_def)

lemma xreqs_putCM [simp]: "xreqs (putCM m s) = xreqs s"
  by (simp add: putCM_def)

lemma xreqs_emit [simp]: "xreqs (emit rs s) = xreqs s @ rs"
  by (simp add: emit_def)

lemma select_monitor_same: "select_monitor (current_monitor s) s = s"
  by (simp add: select_monitor_def)

lemma remove1_split: "c \<notin> set as \<Longrightarrow> remove1 c (as @ c # bs) = as @ bs"
  by (induction as) auto

lemma unlink:
  assumes g: "getCM s = Some mf" and l: "clist (clients s) (head mf) xs" and c: "c \<in> set xs"
    and cc: "clients s c = Some cc"
  shows "\<exists>h' hd'. write_loc (fst (scan_list c HeadLoc False xs)) (nxt cc) s
             = Some (putCM (mf\<lparr>head := hd'\<rparr>) (s\<lparr>clients := h'\<rparr>))
           \<and> clist (h'(c := None)) hd' (remove1 c xs)
           \<and> (\<forall>r. r \<noteq> c \<longrightarrow> strip h' r = strip (clients s) r)"
proof -
  obtain as bs where sp: "xs = as @ c # bs" "c \<notin> set as"
    using c by (meson split_list_first)
  note d = clist_distinct[OF l]
  have cb: "c \<notin> set bs" using d sp by auto
  have lb: "clist (clients s) (nxt cc) bs" using l sp cc by (auto simp: clist_mid)
  have rm: "remove1 c xs = as @ bs" using sp by (simp add: remove1_split)
  show ?thesis
  proof (cases "as = []")
    case True
    then have pl: "fst (scan_list c HeadLoc False xs) = HeadLoc" using sp by simp
    have "s\<lparr>clients := clients s\<rparr> = s" by simp
    then have w: "write_loc HeadLoc (nxt cc) s
        = Some (putCM (mf\<lparr>head := nxt cc\<rparr>) (s\<lparr>clients := clients s\<rparr>))"
      using g by (simp add: write_loc_def)
    have "clist ((clients s)(c := None)) (nxt cc) (remove1 c xs)"
      using lb cb rm True by (simp add: clist_upd_notin)
    then show ?thesis unfolding pl using w by (intro exI[of _ "clients s"] exI[of _ "nxt cc"]) simp
  next
    case False
    then obtain as' pr where a: "as = as' @ [pr]" by (metis rev_exhaust)
    have "scan_list c HeadLoc False (as @ c # bs)
        = ((if as = [] then HeadLoc else NextLoc (last as)), True)"
      using sp(2) by (rule scan_list_found)
    then have pl: "fst (scan_list c HeadLoc False xs) = NextLoc pr"
      using sp(1) a by simp
    have x: "xs = as' @ pr # c # bs" using sp a by simp
    obtain pc where f: "cpath (clients s) (head mf) as' (Some pr)" "clients s pr = Some pc"
        "nxt pc = Some c"
      using l x cc by (auto simp: clist_mid)
    have dd: "pr \<noteq> c" "pr \<notin> set as'" "pr \<notin> set bs" "c \<notin> set as'"
      using d x by auto
    let ?h' = "(clients s)(pr \<mapsto> pc\<lparr>nxt := nxt cc\<rparr>)"
    have "putCM (mf\<lparr>head := head mf\<rparr>) (s\<lparr>clients := ?h'\<rparr>) = s\<lparr>clients := ?h'\<rparr>"
      using g by (simp add: putCM_same)
    then have w: "write_loc (NextLoc pr) (nxt cc) s
        = Some (putCM (mf\<lparr>head := head mf\<rparr>) (s\<lparr>clients := ?h'\<rparr>))"
      using f by (simp add: write_loc_def set_next_eq)
    have "clist (?h'(c := None)) (head mf) (as' @ pr # bs)"
      using f dd lb cb by (simp add: clist_mid clist_upd_notin cpath_upd_notin)
    then have cl: "clist (?h'(c := None)) (head mf) (remove1 c xs)" using rm a by simp
    have st: "\<forall>r. r \<noteq> c \<longrightarrow> strip ?h' r = strip (clients s) r"
      using f by (simp add: strip_upd_nxt)
    show ?thesis unfolding pl using w cl st
      by (intro exI[of _ ?h'] exI[of _ "head mf"]) simp
  qed
qed

lemma live_fields [simp]:
  "desktop.prevfocus (live m) = prevfocus m" "desktop.current (live m) = current m"
  "desktop.mode (live m) = mode m"
  by (simp_all add: live_def)

lemma live_eq_fields:
  assumes "live a = live b"
  shows "head a = head b" "prevfocus a = prevfocus b" "mode a = mode b" "current a = current b"
proof -
  have "desktop.head (live a) = desktop.head (live b)"
    "desktop.prevfocus (live a) = desktop.prevfocus (live b)"
    "desktop.mode (live a) = desktop.mode (live b)"
    "desktop.current (live a) = desktop.current (live b)"
    using assms by simp_all
  then show "head a = head b" "prevfocus a = prevfocus b" "mode a = mode b" "current a = current b"
    by simp_all
qed

lemma removeclient_current:
  assumes g: "getCM s = Some m" and wf: "wf_monitor cfg m"
    and cc: "clients s c = Some cc" and mon: "monitor cc = current_monitor s"
    and before: "\<forall>d < nat (current_desktop m).
           \<exists>L. clist (clients s) (desktop.head (desktops m ! d)) L \<and> c \<notin> set L"
    and l: "clist (clients s) (head m) xs" and c: "c \<in> set xs"
    and pf: "case prevfocus m of None \<Rightarrow> True | Some q \<Rightarrow> q \<in> set xs \<and> q \<noteq> c"
  shows "\<exists>h' m' rs. removeclient cfg c s
             = (if prevfocus m = None \<or> layout_ok m (clients s) (remove1 c xs)
                then Some (emit rs (putCM m' (s\<lparr>clients := h'\<rparr>))) else None)
           \<and> h' c = None \<and> clist h' (head m') (remove1 c xs)
           \<and> current_desktop m' = current_desktop m \<and> current m' = prevfocus m
           \<and> (\<forall>r. r \<noteq> c \<longrightarrow> strip h' r = strip (clients s) r)"
proof -
  let ?ok = "prevfocus m = None \<or> layout_ok m (clients s) (remove1 c xs)"
  let ?cd = "current_desktop m"
  have cd: "0 \<le> ?cd" "?cd < DESKTOPS cfg" using wf by (auto simp: wf_monitor_def)
  have dv: "dview m (nat ?cd) = live m" using cd by (simp add: dview_def)
  have b: "\<forall>d. nat 0 \<le> d \<and> d < nat ?cd \<longrightarrow>
             (\<exists>L. clist (clients s) (desktop.head (dview m d)) L \<and> c \<notin> set L)"
  proof (intro allI impI)
    fix d assume "nat 0 \<le> d \<and> d < nat ?cd"
    then have "d < nat ?cd" by simp
    moreover from this have "int d \<noteq> ?cd" by auto
    ultimately show "\<exists>L. clist (clients s) (desktop.head (dview m d)) L \<and> c \<notin> set L"
      using before by (simp add: dview_def)
  qed
  have l0: "clist (clients s) (desktop.head (dview m (nat ?cd))) xs" using l dv by simp
  obtain mf where
    loop: "removeclient_desktops cfg c 0 False None s
             = Some (Some (fst (scan_list c HeadLoc False xs)), ?cd + 1, putCM mf s)"
    and lf: "live mf = live m" and cdf: "current_desktop mf = ?cd"
    using removeclient_desktops_found[OF g wf _ cd(1) cd(2) b l0 c, of None] dv by auto
  note f = live_eq_fields[OF lf]
  let ?s2 = "putCM mf s"
  have g2: "getCM ?s2 = Some mf" using g by (simp add: getCM_putCM)
  have l2: "clist (clients ?s2) (head mf) xs" using l f by simp
  have c2: "clients ?s2 c = Some cc" using cc by simp
  obtain h' hd' where
    w: "write_loc (fst (scan_list c HeadLoc False xs)) (nxt cc) ?s2
          = Some (putCM (mf\<lparr>head := hd'\<rparr>) (?s2\<lparr>clients := h'\<rparr>))"
    and l3: "clist (h'(c := None)) hd' (remove1 c xs)"
    and st: "\<forall>r. r \<noteq> c \<longrightarrow> strip h' r = strip (clients ?s2) r"
    using unlink[OF g2 l2 c c2] by blast
  let ?h4 = "h'(c := None)"
  let ?m4 = "mf\<lparr>head := hd'\<rparr>"
  let ?s4 = "putCM ?m4 (s\<lparr>clients := ?h4\<rparr>)"
  have s4: "(putCM ?m4 (?s2\<lparr>clients := h'\<rparr>))\<lparr>clients := (clients (putCM ?m4 (?s2\<lparr>clients := h'\<rparr>)))(c := None)\<rparr> = ?s4"
    by simp
  have g4: "getCM ?s4 = Some ?m4" using g by (simp add: getCM_putCM)
  have g3: "getCM (putCM ?m4 (s\<lparr>clients := h'\<rparr>)) = Some ?m4" using g by (simp add: getCM_putCM)
  have l4: "clist (clients ?s4) (head ?m4) (remove1 c xs)" using l3 by simp
  have st4: "\<forall>r. r \<noteq> c \<longrightarrow> strip ?h4 r = strip (clients s) r"
    using st by (simp add: strip_upd_other)
  have dist: "distinct xs" using l by (rule clist_distinct)
  have "\<exists>m5 rs. update_current cfg (prevfocus ?m4) ?s4
            = (if ?ok then Some (emit rs (putCM m5 (s\<lparr>clients := ?h4\<rparr>))) else None)
          \<and> head m5 = hd' \<and> current_desktop m5 = ?cd \<and> current m5 = prevfocus m"
  proof (cases "prevfocus m")
    case None
    then have "prevfocus ?m4 = None" using f by simp
    then have "update_current cfg (prevfocus ?m4) ?s4
        = Some (emit [DeleteProperty (root ?s4) (netatoms ?s4 NET_ACTIVE)]
                 (putCM (?m4\<lparr>current := None, prevfocus := None\<rparr>) (s\<lparr>clients := ?h4\<rparr>)))"
      using g4 by (simp add: update_current_def putCM_emit)
    then have "update_current cfg (prevfocus ?m4) ?s4
        = (if ?ok then Some (emit [DeleteProperty (root ?s4) (netatoms ?s4 NET_ACTIVE)]
                 (putCM (?m4\<lparr>current := None, prevfocus := None\<rparr>) (s\<lparr>clients := ?h4\<rparr>)))
           else None)"
      using None by simp
    then show ?thesis using cdf None by (intro exI conjI) (assumption, simp_all)
  next
    case (Some q)
    then have q: "q \<in> set xs" "q \<noteq> c" using pf by simp_all
    have p4: "prevfocus ?m4 = Some q" using f Some by simp
    have qr: "q \<in> set (remove1 c xs)" using q by simp
    have "\<forall>r \<in> set (remove1 c xs). strip (clients ?s4) r = strip (clients s) r"
      using st4 dist by auto
    then have "layout_ok ?m4 (clients ?s4) (remove1 c xs) = layout_ok m (clients s) (remove1 c xs)"
      using f layout_ok_pointwise[of "remove1 c xs" "clients ?s4" "clients s" ?m4 m]
      by simp
    then have ok4: "layout_ok ?m4 (clients ?s4) (remove1 c xs) = ?ok" using Some by simp
    obtain pf' rs where
      "update_current cfg (Some q) ?s4
         = (if layout_ok ?m4 (clients ?s4) (remove1 c xs)
            then Some (emit rs (putCM (?m4\<lparr>current := Some q, prevfocus := pf'\<rparr>) ?s4)) else None)"
      using update_current_some[OF g4 l4 qr, of cfg] by blast
    then have "update_current cfg (Some q) ?s4
         = (if ?ok
            then Some (emit rs (putCM (?m4\<lparr>current := Some q, prevfocus := pf'\<rparr>) ?s4)) else None)"
      by (simp only: ok4)
    then have "update_current cfg (prevfocus ?m4) ?s4
         = (if ?ok
            then Some (emit rs (putCM (?m4\<lparr>current := Some q, prevfocus := pf'\<rparr>) (s\<lparr>clients := ?h4\<rparr>)))
            else None)"
      using p4 by simp
    then show ?thesis using cdf Some by (intro exI conjI) (assumption, simp_all)
  qed
  then obtain m5 rs where
    u: "update_current cfg (prevfocus ?m4) ?s4
          = (if ?ok then Some (emit rs (putCM m5 (s\<lparr>clients := ?h4\<rparr>))) else None)"
    and m5: "head m5 = hd'" "current_desktop m5 = ?cd" "current m5 = prevfocus m"
    by blast
  let ?s5 = "emit rs (putCM m5 (s\<lparr>clients := ?h4\<rparr>))"
  have cm5: "current_monitor ?s5 = current_monitor s" by simp
  have sm1: "select_monitor (monitor cc) s = s" using mon by (simp add: select_monitor_same)
  have sm5: "select_monitor (current_monitor s) ?s5 = ?s5"
    using select_monitor_same[of ?s5] cm5 by simp
  have "removeclient cfg c s = (if ?ok then Some ?s5 else None)"
  proof (cases ?ok)
    case True
    then have "update_current cfg (prevfocus ?m4) ?s4 = Some ?s5" using u by simp
    then have "removeclient cfg c s = Some ?s5"
      unfolding removeclient_def Let_def
      using cc sm1 g loop c2 w s4 g3 g4 sm5 by simp
    then show ?thesis using True by simp
  next
    case False
    then have "update_current cfg (prevfocus ?m4) ?s4 = None" using u by simp
    then have "removeclient cfg c s = None"
      unfolding removeclient_def Let_def
      using cc sm1 g loop c2 w s4 g3 g4 by simp
    then show ?thesis using False by simp
  qed
  moreover have "?h4 c = None" by simp
  moreover have "clist ?h4 (head m5) (remove1 c xs)" using l3 m5 by simp
  ultimately show ?thesis using m5 st4 by blast
qed


subsection \<open>Closing the current client\<close>

lemma killclient_scan_mem: "killclient_scan del atoms False \<longleftrightarrow> del \<in> set atoms"
proof -
  have "killclient_scan del atoms g \<longleftrightarrow> del \<in> set atoms \<or> (atoms = [] \<and> g)" for g
    by (induction atoms arbitrary: g) auto
  then show ?thesis by simp
qed

lemma killclient_removeclient:
  assumes "getCM s = Some m" "current m = Some c" "clients s c = Some cc"
  shows "killclient cfg reply s = removeclient cfg c (emit
           [(if (case reply of None \<Rightarrow> False
                | Some atoms \<Rightarrow> wmatoms s WM_DELETE_WINDOW \<in> set atoms)
            then SendEvent (win cc)
                   \<lparr>cm_window = win cc, cm_format = 32, cm_type = wmatoms s WM_PROTOCOLS,
                    cm_data32 = [Some (wmatoms s WM_DELETE_WINDOW), Some XCB_CURRENT_TIME,
                                 None, None, None]\<rparr>
            else KillClient (win cc))] s)"
proof -
  have got: "(case reply of None \<Rightarrow> False
              | Some atoms \<Rightarrow> killclient_scan (wmatoms s WM_DELETE_WINDOW) atoms False)
           = (case reply of None \<Rightarrow> False | Some atoms \<Rightarrow> wmatoms s WM_DELETE_WINDOW \<in> set atoms)"
    by (simp add: killclient_scan_mem split: option.split)
  show ?thesis
    unfolding killclient_def Let_def got
    using assms by (simp add: deletewindow_def)
qed

text \<open>
  The tiling pass at the end of \<open>removeclient\<close> runs over the clients that remain. Where
  another client was focused before and that pass does not return, which is in mode
  \<open>GRID\<close> with two or more clients left and each of them fullscreen, floating or transient
  (\<open>grid\<close> divides by the number of columns, 0), \<open>killclient\<close> does not return either.
\<close>

lemma killclient_undefined:
  assumes g: "getCM s = Some m" and wf: "wf_monitor cfg m"
    and cur: "current m = Some c"
    and cc: "clients s c = Some cc" and mon: "monitor cc = current_monitor s"
    and before: "\<forall>d < nat (current_desktop m).
           \<exists>L. clist (clients s) (desktop.head (desktops m ! d)) L \<and> c \<notin> set L"
    and l: "clist (clients s) (head m) xs" and c: "c \<in> set xs"
    and pf: "prevfocus m = Some q" "q \<in> set xs" "q \<noteq> c"
    and no: "\<not> layout_ok m (clients s) (remove1 c xs)"
  shows "killclient cfg reply s = None"
proof -
  let ?q = "(if (case reply of None \<Rightarrow> False
          | Some atoms \<Rightarrow> wmatoms s WM_DELETE_WINDOW \<in> set atoms)
      then SendEvent (win cc)
             \<lparr>cm_window = win cc, cm_format = 32, cm_type = wmatoms s WM_PROTOCOLS,
              cm_data32 = [Some (wmatoms s WM_DELETE_WINDOW), Some XCB_CURRENT_TIME,
                           None, None, None]\<rparr>
      else KillClient (win cc))"
  let ?s1 = "emit [?q] s"
  have k: "killclient cfg reply s = removeclient cfg c ?s1"
    by (rule killclient_removeclient[OF g cur cc])
  have g1: "getCM ?s1 = Some m" using g by simp
  have c1: "clients ?s1 = clients s" by (simp add: emit_def)
  have cc1: "clients ?s1 c = Some cc" using cc c1 by simp
  have mon1: "monitor cc = current_monitor ?s1" using mon by simp
  have b1: "\<forall>d < nat (current_desktop m).
           \<exists>L. clist (clients ?s1) (desktop.head (desktops m ! d)) L \<and> c \<notin> set L"
    using before c1 by simp
  have l1: "clist (clients ?s1) (head m) xs" using l c1 by simp
  have pf1: "case prevfocus m of None \<Rightarrow> True | Some q \<Rightarrow> q \<in> set xs \<and> q \<noteq> c"
    using pf by simp
  have "\<not> (prevfocus m = None \<or> layout_ok m (clients ?s1) (remove1 c xs))"
    using pf(1) no by (simp add: c1)
  then have "removeclient cfg c ?s1 = None"
    using removeclient_current[OF g1 wf cc1 mon1 b1 l1 c pf1] by auto
  then show ?thesis using k by simp
qed

text \<open>
  So it is in the state \<open>ex_floating\<close>: a tiling pass returns there, and after the removal
  of the only tiled client it does not.
\<close>

lemma killclient_undefined_example:
  "tile S1_config ex_floating \<noteq> None
   \<and> killclient S1_config None ex_floating = None
   \<and> killclient S1_config (Some [101]) ex_floating = None"
  by code_simp





end
